theory Spec2Isabelle
  imports Main "HOL-Library.Sublist"
begin

section \<open>Data model\<close>

text \<open>
  The URL liveness validator of the extension: \<^verbatim>\<open>cache.ts\<close> (the result cache) and
  \<^verbatim>\<open>linkValidator.ts\<close> (probe, CDN check, per-URL validation, batch coordinator).
  Strings are byte lists, HTTP status codes and millisecond clock readings are integers.
  \<^verbatim>\<open>Omit<CacheEntry, 'timestamp'>\<close> is the record \<open>Outcome\<close>; a cache entry adds the
  time stamp to it and a validation result adds the URL. An optional field that is
  absent (\<^verbatim>\<open>undefined\<close>) is \<open>None\<close>.
\<close>

type_synonym Headers = "(string \<times> string) list"

record Outcome =
  isValid :: bool
  statusCode :: "int option"
  statusText :: "string option"
  error :: "string option"

record CacheEntry = Outcome +
  timestamp :: int

record ValidationResult = Outcome +
  url :: string

text \<open>\<^verbatim>\<open>interface HttpResponse\<close>: what a probe resolves to.\<close>

record HttpResponse =
  resp_statusCode :: int
  resp_statusText :: string
  resp_headers :: Headers
  resp_body :: string

text \<open>
  The platform's \<^verbatim>\<open>http.IncomingMessage\<close> as the response callback reads it: the status
  code and message (optional in the platform's typing), the headers (keys in lower case),
  and the body as the sequence of chunks its \<^verbatim>\<open>data\<close> events deliver.
\<close>

record IncomingMessage =
  res_statusCode :: "int option"
  res_statusMessage :: "string option"
  res_headers :: Headers
  res_chunks :: "string list"

text \<open>The fields of a parsed \<^verbatim>\<open>URL\<close> object that the validator reads.\<close>

record URL =
  origin :: string
  protocol :: string
  hostname :: string
  port :: string
  pathname :: string
  search :: string

datatype http_method = HEAD | GET

datatype port_option = PortString string | PortNumber int

text \<open>
  The \<^verbatim>\<open>options\<close> object of one \<^verbatim>\<open>makeRequest\<close> call; \<^verbatim>\<open>_redirectCount\<close> is the
  property the response callback reads and writes on it.
\<close>

record RequestOptions =
  opt_method :: http_method
  opt_hostname :: string
  opt_port :: port_option
  opt_path :: string
  opt_headers :: Headers
  opt_timeout :: int
  opt_redirectCount :: "int option"

text \<open>
  A value caught by \<^verbatim>\<open>catch (error)\<close>: an \<^verbatim>\<open>Error\<close> instance with its message, or any
  other thrown value.
\<close>

datatype thrown = Error string | NonError

text \<open>
  How one request ends, as the handlers registered by \<^verbatim>\<open>makeRequest\<close> see it: the
  response callback runs (and, where the body is read, its chunks and its \<^verbatim>\<open>end\<close> event
  follow), the \<^verbatim>\<open>timeout\<close> event fires, the \<^verbatim>\<open>error\<close> event fires with an \<^verbatim>\<open>Error\<close> of
  the given message, or the abort signal fires while the request is in flight. Each
  request ends in one of these ways, the first that happens.
\<close>

datatype net_event =
  Response IncomingMessage
| TimeoutEvent
| ErrorEvent string
| AbortEvent

text \<open>
  The calls the validator makes on its collaborators, recorded in the order they happen.
  The trace is not read by the program; it only lets a statement say which calls were made.
\<close>

datatype event =
  ValidateUrl string
| CacheGet string
| CacheSet string
| Request string http_method Headers

text \<open>
  The platform and the outside world, as parameters. \<open>parseURL u\<close> is \<^verbatim>\<open>new URL(u)\<close>
  (\<open>Inl\<close> the message of the \<^verbatim>\<open>TypeError\<close> it throws); \<open>resolveURL l u\<close> is
  \<^verbatim>\<open>new URL(l, u).href\<close> (\<open>None\<close> when it throws); \<open>network n https options\<close> is how the
  request issued with these options ends when \<open>n\<close> events have been recorded before it;
  \<open>dateNow n\<close> is what \<^verbatim>\<open>Date.now()\<close> returns when \<open>n\<close> events have been recorded.
\<close>

record env =
  parseURL :: "string \<Rightarrow> string + URL"
  resolveURL :: "string \<Rightarrow> string \<Rightarrow> string option"
  network :: "nat \<Rightarrow> bool \<Rightarrow> RequestOptions \<Rightarrow> net_event"
  dateNow :: "nat \<Rightarrow> int"

section \<open>Result cache (\<^verbatim>\<open>cache.ts\<close>)\<close>

record UrlCache =
  cacheMap :: "string \<rightharpoonup> CacheEntry"
  ttlMs :: int

definition UrlCache_new :: "int \<Rightarrow> UrlCache" where
  "UrlCache_new ttlMinutes = \<lparr>cacheMap = Map.empty, ttlMs = ttlMinutes * 60 * 1000\<rparr>"

text \<open>
  \<^verbatim>\<open>get(url)\<close>, with the reading of \<^verbatim>\<open>Date.now()\<close> as the argument \<open>now\<close>: the entry
  returned and the cache afterwards.
\<close>

definition get :: "UrlCache \<Rightarrow> int \<Rightarrow> string \<Rightarrow> CacheEntry option \<times> UrlCache" where
  "get c now u =
     (case cacheMap c u of
        None \<Rightarrow> (None, c)
      | Some entry \<Rightarrow>
          if now - timestamp entry > ttlMs c
          then (None, c\<lparr>cacheMap := (cacheMap c)(u := None)\<rparr>)
          else (Some entry, c))"

definition set_entry :: "UrlCache \<Rightarrow> int \<Rightarrow> string \<Rightarrow> Outcome \<Rightarrow> UrlCache" where
  "set_entry c now u result =
     c\<lparr>cacheMap := (cacheMap c)(u \<mapsto>
         \<lparr>isValid = isValid result, statusCode = statusCode result,
          statusText = statusText result, error = error result, timestamp = now\<rparr>)\<rparr>"

definition has :: "UrlCache \<Rightarrow> int \<Rightarrow> string \<Rightarrow> bool \<times> UrlCache" where
  "has c now u = (case get c now u of (r, c') \<Rightarrow> (r \<noteq> None, c'))"

definition clear :: "UrlCache \<Rightarrow> UrlCache" where
  "clear c = c\<lparr>cacheMap := Map.empty\<rparr>"

definition cleanup :: "UrlCache \<Rightarrow> int \<Rightarrow> UrlCache" where
  "cleanup c now =
     c\<lparr>cacheMap := (\<lambda>u. case cacheMap c u of
                            None \<Rightarrow> None
                          | Some entry \<Rightarrow> if now - timestamp entry > ttlMs c then None else Some entry)\<rparr>"

section \<open>Link validator (\<^verbatim>\<open>linkValidator.ts\<close>)\<close>

subsection \<open>Strings\<close>

text \<open>
  \<^verbatim>\<open>s.includes(needle)\<close>: the needle occurs in \<open>s\<close> as a contiguous run.
  \<^verbatim>\<open>s.toLowerCase()\<close> maps the letters A to Z to a to z and keeps every other byte.
\<close>

fun str_includes :: "string \<Rightarrow> string \<Rightarrow> bool" where
  "str_includes [] needle = (needle = [])"
| "str_includes (c # cs) needle = (prefix needle (c # cs) \<or> str_includes cs needle)"

definition toLowerCase_char :: "char \<Rightarrow> char" where
  "toLowerCase_char c =
     (case map_of (zip ''ABCDEFGHIJKLMNOPQRSTUVWXYZ'' ''abcdefghijklmnopqrstuvwxyz'') c of
        None \<Rightarrow> c
      | Some l \<Rightarrow> l)"

definition toLowerCase :: "string \<Rightarrow> string" where
  "toLowerCase s = map toLowerCase_char s"

subsection \<open>Module-level functions\<close>

definition BROKEN_STATUS_CODES :: "int list" where
  "BROKEN_STATUS_CODES = [404, 410]"

definition getOrigin :: "env \<Rightarrow> string \<Rightarrow> string" where
  "getOrigin e u = (case parseURL e u of Inl _ \<Rightarrow> '''' | Inr parsed \<Rightarrow> origin parsed)"

definition isCdnErrorResponse :: "HttpResponse \<Rightarrow> bool" where
  "isCdnErrorResponse response =
     (let contentType = (case map_of (resp_headers response) ''content-type'' of
                           None \<Rightarrow> '''' | Some v \<Rightarrow> v);
          data = resp_body response
      in if str_includes contentType ''xml'' \<or> str_includes contentType ''text/html''
         then (let lowerData = toLowerCase data
               in if str_includes lowerData ''accessdenied'' \<or>
                     str_includes lowerData ''nosuchkey'' \<or>
                     str_includes lowerData ''not found'' \<or>
                     str_includes lowerData ''does not exist'' \<or>
                     str_includes lowerData ''<error>'' \<or>
                     str_includes lowerData ''the specified key does not exist''
                  then True else False)
         else False)"

text \<open>
  The validator object together with the part of the heap it works on: \<open>cache\<close>,
  \<open>timeoutMs\<close>, \<open>maxConcurrent\<close> and \<open>abortController\<close> are the fields of the class. An
  \<^verbatim>\<open>AbortController\<close> is an address; \<open>signals a\<close> is the \<^verbatim>\<open>aborted\<close> flag of the signal of
  the controller at address \<open>a\<close>, and \<open>allocated\<close> is the next free address. \<open>trace\<close> is the
  record of calls made so far.
\<close>

record LinkValidator =
  cache :: UrlCache
  timeoutMs :: int
  maxConcurrent :: int
  abortController :: "nat option"
  signals :: "nat \<Rightarrow> bool"
  allocated :: nat
  trace :: "event list"

definition LinkValidator_new :: "UrlCache \<Rightarrow> int \<Rightarrow> int \<Rightarrow> LinkValidator" where
  "LinkValidator_new c timeout maxConc =
     \<lparr>cache = c, timeoutMs = timeout, maxConcurrent = maxConc, abortController = None,
      signals = (\<lambda>_. False), allocated = 0, trace = []\<rparr>"

definition cancel :: "LinkValidator \<Rightarrow> LinkValidator" where
  "cancel s =
     (case abortController s of
        Some a \<Rightarrow> s\<lparr>signals := (signals s)(a := True), abortController := None\<rparr>
      | None \<Rightarrow> s)"

text \<open>
  The body of a \<^verbatim>\<open>GET\<close> response: a chunk is appended while the number of bytes received
  so far, this chunk included, is at most 10240.
\<close>

fun readBody :: "string list \<Rightarrow> nat \<Rightarrow> string \<Rightarrow> string" where
  "readBody [] bytesReceived body = body"
| "readBody (chunk # chunks) bytesReceived body =
     (let bytesReceived' = bytesReceived + length chunk
      in readBody chunks bytesReceived'
           (if bytesReceived' \<le> 10240 then body @ chunk else body))"

text \<open>
  The response callback that \<^verbatim>\<open>makeRequest\<close> passes to \<^verbatim>\<open>lib.request\<close>, as what it
  decides: to follow a redirect by calling \<^verbatim>\<open>makeRequest\<close> again with the new URL, to
  resolve the promise with a response, or to throw (a \<^verbatim>\<open>Location\<close> that \<^verbatim>\<open>new URL\<close>
  refuses; nothing catches the exception for the promise). \<open>options\<close> is the object of
  the enclosing call: the callback reads \<^verbatim>\<open>_redirectCount\<close> from it and writes the
  incremented count back to it before the recursive call, which receives the new URL, the
  method, the headers, the timeout and the signal.
\<close>

datatype response_action = Follow string | Resolve HttpResponse | Uncaught

definition onResponse ::
  "env \<Rightarrow> string \<Rightarrow> http_method \<Rightarrow> RequestOptions \<Rightarrow> IncomingMessage \<Rightarrow> response_action"
where
  "onResponse e u method options res =
     (let status = (case res_statusCode res of None \<Rightarrow> 0 | Some c \<Rightarrow> c);
          location = (case map_of (res_headers res) ''location'' of None \<Rightarrow> '''' | Some l \<Rightarrow> l);
          resolved =
            (if method = HEAD
             then Resolve \<lparr>resp_statusCode = status,
                           resp_statusText = (case res_statusMessage res of
                                                None \<Rightarrow> '''' | Some m \<Rightarrow> m),
                           resp_headers = res_headers res,
                           resp_body = ''''\<rparr>
             else Resolve \<lparr>resp_statusCode = status,
                           resp_statusText = (case res_statusMessage res of
                                                None \<Rightarrow> '''' | Some m \<Rightarrow> m),
                           resp_headers = res_headers res,
                           resp_body = readBody (res_chunks res) 0 ''''\<rparr>)
      in if status \<noteq> 0 \<and> status \<ge> 300 \<and> status < 400 \<and> location \<noteq> ''''
         then (let redirectCount = (case opt_redirectCount options of None \<Rightarrow> 0 | Some n \<Rightarrow> n)
               in if redirectCount < 5
                  then (case resolveURL e location u of
                          None \<Rightarrow> Uncaught
                        | Some newUrl \<Rightarrow>
                            (let options' = options\<lparr>opt_redirectCount := Some (redirectCount + 1)\<rparr>
                             in Follow newUrl))
                  else resolved)
         else resolved)"

text \<open>
  \<^verbatim>\<open>makeRequest(url, method, headers, timeoutMs, signal)\<close>. The promise it returns is
  rejected (\<open>Inl\<close>), resolved (\<open>Inr\<close>), or never settled (\<open>None\<close>): a chain of redirects
  that does not end, or an exception thrown inside the response callback. Each call
  builds its own \<open>options\<close>, without a \<^verbatim>\<open>_redirectCount\<close>.
\<close>

partial_function (option) makeRequest ::
  "env \<Rightarrow> string \<Rightarrow> http_method \<Rightarrow> Headers \<Rightarrow> int \<Rightarrow> nat \<Rightarrow> LinkValidator
     \<Rightarrow> ((thrown + HttpResponse) \<times> LinkValidator) option"
where
  "makeRequest e u method headers timeout signal s =
     (if signals s signal then Some (Inl (Error ''Request cancelled''), s)
      else case parseURL e u of
        Inl message \<Rightarrow> Some (Inl (Error message), s)
      | Inr parsed \<Rightarrow>
          (let isHttps = (protocol parsed = ''https:'');
               options = \<lparr>opt_method = method,
                          opt_hostname = hostname parsed,
                          opt_port = (if port parsed \<noteq> '''' then PortString (port parsed)
                                      else PortNumber (if isHttps then 443 else 80)),
                          opt_path = pathname parsed @ search parsed,
                          opt_headers = headers,
                          opt_timeout = timeout,
                          opt_redirectCount = None\<rparr>;
               s1 = s\<lparr>trace := trace s @ [Request u method headers]\<rparr>
           in case network e (length (trace s)) isHttps options of
                Response res \<Rightarrow>
                  (case onResponse e u method options res of
                     Follow newUrl \<Rightarrow> makeRequest e newUrl method headers timeout signal s1
                   | Resolve response \<Rightarrow> Some (Inr response, s1)
                   | Uncaught \<Rightarrow> None)
              | TimeoutEvent \<Rightarrow> Some (Inl (Error ''Request timeout''), s1)
              | ErrorEvent message \<Rightarrow> Some (Inl (Error message), s1)
              | AbortEvent \<Rightarrow>
                  Some (Inl (Error ''Request cancelled''),
                        s1\<lparr>signals := (signals s1)(signal := True)\<rparr>)))"

declare makeRequest.simps [code]

subsection \<open>The class \<^verbatim>\<open>LinkValidator\<close>\<close>

definition cacheAndReturn ::
  "env \<Rightarrow> string \<Rightarrow> bool \<Rightarrow> int \<Rightarrow> string \<Rightarrow> LinkValidator \<Rightarrow> ValidationResult \<times> LinkValidator"
where
  "cacheAndReturn e u valid code text s =
     (\<lparr>isValid = valid, statusCode = Some code, statusText = Some text, error = None, url = u\<rparr>,
      s\<lparr>cache := set_entry (cache s) (dateNow e (length (trace s))) u
                   \<lparr>isValid = valid, statusCode = Some code, statusText = Some text,
                    error = None\<rparr>,
        trace := trace s @ [CacheSet u]\<rparr>)"

definition handleError ::
  "env \<Rightarrow> string \<Rightarrow> thrown \<Rightarrow> LinkValidator \<Rightarrow> ValidationResult \<times> LinkValidator"
where
  "handleError e u err s =
     (if (case err of Error message \<Rightarrow> message = ''Request cancelled'' | NonError \<Rightarrow> False)
      then (\<lparr>isValid = True, statusCode = None, statusText = None,
             error = Some ''Request cancelled'', url = u\<rparr>, s)
      else
        (let errorMessage =
               (case err of
                  NonError \<Rightarrow> ''Unknown error''
                | Error message \<Rightarrow>
                    if message = ''Request timeout'' then ''Request timeout''
                    else if str_includes message ''ENOTFOUND'' then ''Domain not found''
                    else if str_includes message ''ECONNREFUSED'' then ''Connection refused''
                    else if message \<noteq> '''' then message else ''Network error'')
         in (\<lparr>isValid = False, statusCode = None, statusText = None,
              error = Some errorMessage, url = u\<rparr>,
             s\<lparr>cache := set_entry (cache s) (dateNow e (length (trace s))) u
                          \<lparr>isValid = False, statusCode = None, statusText = None,
                           error = Some errorMessage\<rparr>,
               trace := trace s @ [CacheSet u]\<rparr>)))"

text \<open>The request headers \<^verbatim>\<open>browserHeaders\<close> that \<^verbatim>\<open>validateUrl\<close> builds for a URL.\<close>

definition browserHeaders :: "env \<Rightarrow> string \<Rightarrow> Headers" where
  "browserHeaders e u =
     [(''User-Agent'', ''Mozilla/5.0 (Macintosh; Intel Mac OS X 10_15_7) AppleWebKit/537.36 (KHTML, like Gecko) Chrome/120.0.0.0 Safari/537.36''),
      (''Accept'', ''image/avif,image/webp,image/apng,image/svg+xml,image/*,*/*;q=0.8''),
      (''Accept-Language'', ''en-US,en;q=0.9''),
      (''Referer'', getOrigin e u)]"

text \<open>
  The \<^verbatim>\<open>try\<close> block of \<^verbatim>\<open>validateUrl\<close>: \<open>Inl\<close> is the value it throws (a rejected probe),
  \<open>Inr\<close> the result it returns.
\<close>

definition validateUrl_try ::
  "env \<Rightarrow> string \<Rightarrow> nat \<Rightarrow> LinkValidator \<Rightarrow> ((thrown + ValidationResult) \<times> LinkValidator) option"
where
  "validateUrl_try e u signal s =
     (let headers = browserHeaders e u
      in case makeRequest e u HEAD headers (timeoutMs s) signal s of
           None \<Rightarrow> None
         | Some (Inl err, s1) \<Rightarrow> Some (Inl err, s1)
         | Some (Inr response, s1) \<Rightarrow>
             if resp_statusCode response \<ge> 200 \<and> resp_statusCode response < 400
             then (case cacheAndReturn e u True (resp_statusCode response)
                          (resp_statusText response) s1 of (r, s2) \<Rightarrow> Some (Inr r, s2))
             else if resp_statusCode response \<in> set BROKEN_STATUS_CODES
             then (case cacheAndReturn e u False (resp_statusCode response)
                          (resp_statusText response) s1 of (r, s2) \<Rightarrow> Some (Inr r, s2))
             else if resp_statusCode response = 403 \<or> resp_statusCode response = 405
             then (case makeRequest e u GET (headers @ [(''Range'', ''bytes=0-1023'')])
                          (timeoutMs s1) signal s1 of
                     None \<Rightarrow> None
                   | Some (Inl err, s2) \<Rightarrow> Some (Inl err, s2)
                   | Some (Inr response2, s2) \<Rightarrow>
                       if resp_statusCode response2 \<ge> 200 \<and> resp_statusCode response2 < 400
                       then (case cacheAndReturn e u True (resp_statusCode response2)
                                    (resp_statusText response2) s2 of
                               (r, s3) \<Rightarrow> Some (Inr r, s3))
                       else if resp_statusCode response2 = 403
                       then (if isCdnErrorResponse response2
                             then (case cacheAndReturn e u False (resp_statusCode response2)
                                          ''Not Found (CDN)'' s2 of
                                     (r, s3) \<Rightarrow> Some (Inr r, s3))
                             else (case cacheAndReturn e u True (resp_statusCode response2)
                                          ''Protected'' s2 of
                                     (r, s3) \<Rightarrow> Some (Inr r, s3)))
                       else (case cacheAndReturn e u
                                    (resp_statusCode response2 \<ge> 200 \<and> resp_statusCode response2 < 400)
                                    (resp_statusCode response2) (resp_statusText response2) s2 of
                               (r, s3) \<Rightarrow> Some (Inr r, s3)))
             else (case cacheAndReturn e u
                          (resp_statusCode response \<ge> 200 \<and> resp_statusCode response < 400)
                          (resp_statusCode response) (resp_statusText response) s1 of
                     (r, s2) \<Rightarrow> Some (Inr r, s2)))"

definition validateUrl ::
  "env \<Rightarrow> string \<Rightarrow> nat \<Rightarrow> LinkValidator \<Rightarrow> (ValidationResult \<times> LinkValidator) option"
where
  "validateUrl e u signal s =
     (case get (cache s) (dateNow e (Suc (length (trace s)))) u of
        (cached, c') \<Rightarrow>
          (let s0 = s\<lparr>cache := c', trace := trace s @ [ValidateUrl u, CacheGet u]\<rparr>
           in case cached of
                Some entry \<Rightarrow>
                  Some (\<lparr>isValid = isValid entry, statusCode = statusCode entry,
                         statusText = statusText entry, error = error entry, url = u\<rparr>, s0)
              | None \<Rightarrow>
                  (case validateUrl_try e u signal s0 of
                     None \<Rightarrow> None
                   | Some (Inl err, s1) \<Rightarrow> Some (handleError e u err s1)
                   | Some (Inr r, s1) \<Rightarrow> Some (r, s1))))"

text \<open>
  \<^verbatim>\<open>await Promise.all(batch.map(url => this.validateUrl(url, signal)))\<close>: the
  validations of one window, taken one after the other in the order of the window.
\<close>

fun validateWindow ::
  "env \<Rightarrow> string list \<Rightarrow> nat \<Rightarrow> LinkValidator \<Rightarrow> (ValidationResult list \<times> LinkValidator) option"
where
  "validateWindow e [] signal s = Some ([], s)"
| "validateWindow e (u # us) signal s =
     (case validateUrl e u signal s of
        None \<Rightarrow> None
      | Some (r, s1) \<Rightarrow>
          (case validateWindow e us signal s1 of
             None \<Rightarrow> None
           | Some (rs, s2) \<Rightarrow> Some (r # rs, s2)))"

text \<open>\<^verbatim>\<open>xs.slice(start, end)\<close> for integer arguments, negative ones counting from the end.\<close>

definition slice :: "'a list \<Rightarrow> int \<Rightarrow> int \<Rightarrow> 'a list" where
  "slice xs start fin =
     (let len = int (length xs);
          k = (if start < 0 then max (len + start) 0 else min start len);
          final = (if fin < 0 then max (len + fin) 0 else min fin len)
      in take (nat (final - k)) (drop (nat k) xs))"

text \<open>\<^verbatim>\<open>[...new Set(urls)]\<close>: the elements in the order of their first occurrence.\<close>

primrec addAll :: "'a list \<Rightarrow> 'a list \<Rightarrow> 'a list" where
  "addAll acc [] = acc"
| "addAll acc (x # xs) = addAll (if x \<in> set acc then acc else acc @ [x]) xs"

definition newSet :: "'a list \<Rightarrow> 'a list" where
  "newSet xs = addAll [] xs"

text \<open>
  The \<^verbatim>\<open>for\<close> loop of \<^verbatim>\<open>validateUrls\<close>; it does not return (\<open>None\<close>) when a probe never
  settles or when the index never reaches the length of the list.
\<close>

partial_function (option) validateUrls_loop ::
  "env \<Rightarrow> nat \<Rightarrow> string list \<Rightarrow> int \<Rightarrow> ValidationResult list \<Rightarrow> LinkValidator
     \<Rightarrow> (ValidationResult list \<times> LinkValidator) option"
where
  "validateUrls_loop e signal uniqueUrls i results s =
     (if i < int (length uniqueUrls)
      then (if signals s signal then Some (results, s)
            else (case validateWindow e (slice uniqueUrls i (i + maxConcurrent s)) signal s of
                    None \<Rightarrow> None
                  | Some (batchResults, s1) \<Rightarrow>
                      validateUrls_loop e signal uniqueUrls (i + maxConcurrent s1)
                        (results @ batchResults) s1))
      else Some (results, s))"

declare validateUrls_loop.simps [code]

definition validateUrls ::
  "env \<Rightarrow> string list \<Rightarrow> LinkValidator \<Rightarrow> (ValidationResult list \<times> LinkValidator) option"
where
  "validateUrls e urls s =
     (if length urls = 0 then Some ([], s)
      else (let s1 = cancel s;
                signal = allocated s1;
                s2 = s1\<lparr>abortController := Some signal,
                        signals := (signals s1)(signal := False),
                        allocated := Suc signal\<rparr>
            in validateUrls_loop e signal (newSet urls) 0 [] s2))"

section \<open>The validator built on axios\<close>

text \<open>
  The repository holds a second version of \<^verbatim>\<open>linkValidator.ts\<close> that probes with the
  axios client in place of \<^verbatim>\<open>makeRequest\<close>. Its batch coordinator and \<^verbatim>\<open>cacheAndReturn\<close>
  are the same text; its CDN check, its per-URL validation and its error handler are
  modelled here. The calls \<^verbatim>\<open>axios.head(url, config)\<close> and \<^verbatim>\<open>axios.get(url, config)\<close>
  are parameters: given the URL, the request headers, the timeout and the signal, each
  returns the response it resolves with (\<open>Inr\<close>) or the value it rejects with (\<open>Inl\<close>),
  and the validator afterwards. Of a rejected value the error handler reads whether
  \<^verbatim>\<open>axios.isCancel\<close> holds of it and, when it is an \<^verbatim>\<open>AxiosError\<close>, its code and message.
\<close>

datatype axios_data = StringData string | OtherData

record AxiosResponse =
  ax_status :: int
  ax_statusText :: string
  ax_headers :: Headers
  ax_data :: axios_data

record axios_thrown =
  thrown_isCancel :: bool
  thrown_axiosError :: "(string option \<times> string) option"

type_synonym axios_call =
  "string \<Rightarrow> Headers \<Rightarrow> int \<Rightarrow> nat \<Rightarrow> LinkValidator
     \<Rightarrow> (axios_thrown + AxiosResponse) \<times> LinkValidator"

definition isCdnErrorResponse_axios :: "AxiosResponse \<Rightarrow> bool" where
  "isCdnErrorResponse_axios response =
     (let contentType = (case map_of (ax_headers response) ''content-type'' of
                           None \<Rightarrow> '''' | Some v \<Rightarrow> v);
          data = ax_data response
      in if str_includes contentType ''xml'' \<or> str_includes contentType ''text/html''
         then (case data of
                 StringData d \<Rightarrow>
                   (let lowerData = toLowerCase d
                    in if str_includes lowerData ''accessdenied'' \<or>
                          str_includes lowerData ''nosuchkey'' \<or>
                          str_includes lowerData ''not found'' \<or>
                          str_includes lowerData ''does not exist'' \<or>
                          str_includes lowerData ''<error>'' \<or>
                          str_includes lowerData ''the specified key does not exist''
                       then True else False)
               | OtherData \<Rightarrow> False)
         else False)"

text \<open>
  \<^verbatim>\<open>handleError\<close> of the axios version; \<open>errorMessage\<close> is \<open>None\<close> on the paths that
  return the cancelled outcome.
\<close>

definition handleError_axios ::
  "env \<Rightarrow> string \<Rightarrow> axios_thrown \<Rightarrow> LinkValidator \<Rightarrow> ValidationResult \<times> LinkValidator"
where
  "handleError_axios e u err s =
     (let errorMessage =
            (if thrown_isCancel err then None
             else case thrown_axiosError err of
                    None \<Rightarrow> Some ''Unknown error''
                  | Some (code, message) \<Rightarrow>
                      if code = Some ''ECONNABORTED'' then Some ''Request timeout''
                      else if code = Some ''ENOTFOUND'' then Some ''Domain not found''
                      else if code = Some ''ECONNREFUSED'' then Some ''Connection refused''
                      else if code = Some ''ERR_CANCELED'' then None
                      else Some (if message \<noteq> '''' then message else ''Network error''))
      in case errorMessage of
           None \<Rightarrow> (\<lparr>isValid = True, statusCode = None, statusText = None,
                      error = Some ''Request cancelled'', url = u\<rparr>, s)
         | Some msg \<Rightarrow>
             (\<lparr>isValid = False, statusCode = None, statusText = None,
               error = Some msg, url = u\<rparr>,
              s\<lparr>cache := set_entry (cache s) (dateNow e (length (trace s))) u
                           \<lparr>isValid = False, statusCode = None, statusText = None,
                            error = Some msg\<rparr>,
                trace := trace s @ [CacheSet u]\<rparr>))"

definition validateUrl_try_axios ::
  "axios_call \<Rightarrow> axios_call \<Rightarrow> env \<Rightarrow> string \<Rightarrow> nat \<Rightarrow> LinkValidator
     \<Rightarrow> (axios_thrown + ValidationResult) \<times> LinkValidator"
where
  "validateUrl_try_axios axios_head axios_get e u signal s =
     (let headers = browserHeaders e u
      in case axios_head u headers (timeoutMs s) signal s of
           (Inl err, s1) \<Rightarrow> (Inl err, s1)
         | (Inr response, s1) \<Rightarrow>
             if ax_status response \<ge> 200 \<and> ax_status response < 400
             then (case cacheAndReturn e u True (ax_status response)
                          (ax_statusText response) s1 of (r, s2) \<Rightarrow> (Inr r, s2))
             else if ax_status response \<in> set BROKEN_STATUS_CODES
             then (case cacheAndReturn e u False (ax_status response)
                          (ax_statusText response) s1 of (r, s2) \<Rightarrow> (Inr r, s2))
             else if ax_status response = 403 \<or> ax_status response = 405
             then (case axios_get u (headers @ [(''Range'', ''bytes=0-1023'')])
                          (timeoutMs s1) signal s1 of
                     (Inl err, s2) \<Rightarrow> (Inl err, s2)
                   | (Inr response2, s2) \<Rightarrow>
                       if ax_status response2 \<ge> 200 \<and> ax_status response2 < 400
                       then (case cacheAndReturn e u True (ax_status response2)
                                    (ax_statusText response2) s2 of
                               (r, s3) \<Rightarrow> (Inr r, s3))
                       else if ax_status response2 = 403
                       then (if isCdnErrorResponse_axios response2
                             then (case cacheAndReturn e u False (ax_status response2)
                                          ''Not Found (CDN)'' s2 of
                                     (r, s3) \<Rightarrow> (Inr r, s3))
                             else (case cacheAndReturn e u True (ax_status response2)
                                          ''Protected'' s2 of
                                     (r, s3) \<Rightarrow> (Inr r, s3)))
                       else (case cacheAndReturn e u
                                    (ax_status response2 \<ge> 200 \<and> ax_status response2 < 400)
                                    (ax_status response2) (ax_statusText response2) s2 of
                               (r, s3) \<Rightarrow> (Inr r, s3)))
             else (case cacheAndReturn e u
                          (ax_status response \<ge> 200 \<and> ax_status response < 400)
                          (ax_status response) (ax_statusText response) s1 of
                     (r, s2) \<Rightarrow> (Inr r, s2)))"

definition validateUrl_axios ::
  "axios_call \<Rightarrow> axios_call \<Rightarrow> env \<Rightarrow> string \<Rightarrow> nat \<Rightarrow> LinkValidator
     \<Rightarrow> ValidationResult \<times> LinkValidator"
where
  "validateUrl_axios axios_head axios_get e u signal s =
     (case get (cache s) (dateNow e (Suc (length (trace s)))) u of
        (cached, c') \<Rightarrow>
          (let s0 = s\<lparr>cache := c', trace := trace s @ [ValidateUrl u, CacheGet u]\<rparr>
           in case cached of
                Some entry \<Rightarrow>
                  (\<lparr>isValid = isValid entry, statusCode = statusCode entry,
                    statusText = statusText entry, error = error entry, url = u\<rparr>, s0)
              | None \<Rightarrow>
                  (case validateUrl_try_axios axios_head axios_get e u signal s0 of
                     (Inl err, s1) \<Rightarrow> handleError_axios e u err s1
                   | (Inr r, s1) \<Rightarrow> (r, s1))))"

section \<open>Notions used in the statements\<close>

text \<open>
  An outcome is consistent when it is not valid with one of the \<open>BROKEN_STATUS_CODES\<close>; a
  cache is consistent when every entry it stores is.
\<close>

definition consistent :: "'a Outcome_scheme \<Rightarrow> bool" where
  "consistent r = (\<not> (isValid r \<and> (statusCode r = Some 404 \<or> statusCode r = Some 410)))"

definition cache_consistent :: "UrlCache \<Rightarrow> bool" where
  "cache_consistent c = (\<forall>u entry. cacheMap c u = Some entry \<longrightarrow> consistent entry)"

text \<open>
  The states of a validator in use: it is constructed on a new cache, and then batches
  are validated, validations are cancelled, and the cache is swept or cleared.
\<close>

inductive reachable :: "env \<Rightarrow> LinkValidator \<Rightarrow> bool" for e :: env where
  fresh: "reachable e (LinkValidator_new (UrlCache_new ttlMinutes) timeout maxConc)"
| batch: "reachable e s \<Longrightarrow> validateUrls e urls s = Some (rs, s') \<Longrightarrow> reachable e s'"
| cancelled: "reachable e s \<Longrightarrow> reachable e (cancel s)"
| swept: "reachable e s \<Longrightarrow> reachable e (s\<lparr>cache := cleanup (cache s) now\<rparr>)"
| cleared: "reachable e s \<Longrightarrow> reachable e (s\<lparr>cache := clear (cache s)\<rparr>)"

text \<open>The URLs whose validation a trace records, in order.\<close>

fun validations :: "event list \<Rightarrow> string list" where
  "validations [] = []"
| "validations (ValidateUrl u # evs) = u # validations evs"
| "validations (ev # evs) = validations evs"

text \<open>Every probe settles: no redirect chain is endless and no callback throws.\<close>

definition probes_settle :: "env \<Rightarrow> bool" where
  "probes_settle e = (\<forall>u m h t sig s. makeRequest e u m h t sig s \<noteq> None)"



section \<open>Concrete inputs\<close>

text \<open>Inputs at which the statements below are evaluated.\<close>

definition url_a :: string where
  "url_a = ''https://cdn.example.com/a.png''"

definition ok_outcome :: Outcome where
  "ok_outcome = \<lparr>isValid = True, statusCode = Some 200, statusText = Some ''OK'', error = None\<rparr>"

definition ok_entry :: "int \<Rightarrow> CacheEntry" where
  "ok_entry t = \<lparr>isValid = True, statusCode = Some 200, statusText = Some ''OK'', error = None,
                 timestamp = t\<rparr>"

definition cache5 :: UrlCache where
  "cache5 = set_entry (UrlCache_new 5) 1000 url_a ok_outcome"

definition cache0 :: UrlCache where
  "cache0 = set_entry (UrlCache_new 0) 1000 url_a ok_outcome"

text \<open>
  A platform for the examples: every URL is on the host \<open>h\<close>, and the server answers by
  path and method.
\<close>

definition example_parseURL :: "string \<Rightarrow> string + URL" where
  "example_parseURL u =
     (if prefix ''http://h/'' u
      then Inr \<lparr>origin = ''http://h'', protocol = ''http:'', hostname = ''h'', port = '''',
                pathname = drop 8 u, search = ''''\<rparr>
      else Inl ''Invalid URL'')"

definition example_resolveURL :: "string \<Rightarrow> string \<Rightarrow> string option" where
  "example_resolveURL location base =
     (if prefix ''/'' location then Some (''http://h'' @ location)
      else if prefix ''http://h/'' location then Some location
      else None)"

definition redirect_to :: "string \<Rightarrow> net_event" where
  "redirect_to location =
     Response \<lparr>res_statusCode = Some 301, res_statusMessage = Some ''Moved Permanently'',
               res_headers = [(''location'', location)], res_chunks = []\<rparr>"

definition respond :: "int \<Rightarrow> string \<Rightarrow> string \<Rightarrow> string list \<Rightarrow> net_event" where
  "respond code message contentType chunks =
     Response \<lparr>res_statusCode = Some code, res_statusMessage = Some message,
               res_headers = [(''content-type'', contentType)], res_chunks = chunks\<rparr>"

definition example_network :: "nat \<Rightarrow> bool \<Rightarrow> RequestOptions \<Rightarrow> net_event" where
  "example_network n https options =
     (let path = opt_path options; m = opt_method options
      in if path = ''/0'' then redirect_to ''/1''
         else if path = ''/1'' then redirect_to ''/2''
         else if path = ''/2'' then redirect_to ''/3''
         else if path = ''/3'' then redirect_to ''/4''
         else if path = ''/4'' then redirect_to ''/5''
         else if path = ''/5'' then redirect_to ''/6''
         else if path = ''/loop'' then redirect_to ''/loop''
         else if path = ''/missing'' then respond 404 ''Not Found'' ''text/html'' []
         else if path = ''/gone'' then respond 410 ''Gone'' ''text/html'' []
         else if path = ''/head-blocked''
         then (if m = HEAD then respond 403 ''Forbidden'' ''text/plain'' []
               else respond 206 ''Partial Content'' ''image/png'' [''PNG''])
         else if path = ''/cdn-missing''
         then (if m = HEAD then respond 403 ''Forbidden'' ''application/xml'' []
               else respond 403 ''Forbidden'' ''application/xml''
                      [''<Error><Code>NoSuchKey</Code></Error>''])
         else if path = ''/protected''
         then respond 403 ''Forbidden'' ''application/octet-stream'' []
         else if path = ''/no-head''
         then (if m = HEAD then respond 405 ''Method Not Allowed'' ''text/plain'' []
               else respond 404 ''Not Found'' ''text/plain'' [''nothing here''])
         else if path = ''/broken-server'' then respond 500 ''Internal Server Error'' ''text/plain'' []
         else if path = ''/slow'' then TimeoutEvent
         else if path = ''/no-such-host'' then ErrorEvent ''getaddrinfo ENOTFOUND h''
         else if path = ''/refused'' then ErrorEvent ''connect ECONNREFUSED 127.0.0.1:80''
         else if path = ''/hang-up'' then ErrorEvent ''socket hang up''
         else if path = ''/silent'' then ErrorEvent ''''
         else if path = ''/abort'' then AbortEvent
         else respond 200 ''OK'' ''image/png'' [])"

definition env_example :: env where
  "env_example = \<lparr>parseURL = example_parseURL, resolveURL = example_resolveURL,
                  network = example_network, dateNow = (\<lambda>n. 1000 + int n)\<rparr>"

text \<open>A server that answers every request with 200.\<close>

definition env_plain :: env where
  "env_plain = \<lparr>parseURL = example_parseURL, resolveURL = example_resolveURL,
                network = (\<lambda>n https options. respond 200 ''OK'' ''image/png'' []),
                dateNow = (\<lambda>n. 1000 + int n)\<rparr>"



definition validator0 :: LinkValidator where
  "validator0 = LinkValidator_new (UrlCache_new 5) 5000 5"

definition response_nosuchkey :: HttpResponse where
  "response_nosuchkey =
     \<lparr>resp_statusCode = 403, resp_statusText = ''Forbidden'',
      resp_headers = [(''content-type'', ''application/xml'')],
      resp_body = ''<Error><Code>NoSuchKey</Code></Error>''\<rparr>"

definition response_octet :: HttpResponse where
  "response_octet =
     \<lparr>resp_statusCode = 403, resp_statusText = ''Forbidden'',
      resp_headers = [(''content-type'', ''application/octet-stream'')],
      resp_body = ''''\<rparr>"

section \<open>The result cache\<close>

lemma get_miss: "cacheMap c u = None \<Longrightarrow> get c now u = (None, c)"
  by (simp add: get_def)

lemma get_fresh:
  "cacheMap c u = Some entry \<Longrightarrow> now - timestamp entry \<le> ttlMs c \<Longrightarrow> get c now u = (Some entry, c)"
  by (simp add: get_def)

lemma get_expired:
  "cacheMap c u = Some entry \<Longrightarrow> now - timestamp entry > ttlMs c \<Longrightarrow>
   get c now u = (None, c\<lparr>cacheMap := (cacheMap c)(u := None)\<rparr>)"
  by (simp add: get_def)

lemma cache5_entry: "cacheMap cache5 url_a = Some (ok_entry 1000) \<and> ttlMs cache5 = 300000"
  by (simp add: cache5_def set_entry_def UrlCache_new_def ok_outcome_def ok_entry_def)

lemma cache0_entry: "cacheMap cache0 url_a = Some (ok_entry 1000) \<and> ttlMs cache0 = 0"
  by (simp add: cache0_def set_entry_def UrlCache_new_def ok_outcome_def ok_entry_def)

text \<open>
  C3 (as amended). \<open>get\<close> returns an entry exactly when one is stored for the URL and
  \<open>now - timestamp \<le> ttl\<close>, and then it returns that entry and leaves the cache as it
  was; an entry with \<open>now - timestamp > ttl\<close> is removed by the \<open>get\<close> and nothing is
  returned; a \<open>get\<close> for a URL with no entry returns nothing and leaves the cache as it
  was. With \<open>ttl = 0\<close> the same test applies: an entry is returned exactly when
  \<open>now \<le> timestamp\<close>, so it is expired as soon as its age is positive, and is still
  returned by a \<open>get\<close> in the millisecond of its insertion.
\<close>

theorem get_returns_iff_within_ttl:
  "(fst (get c now u) \<noteq> None \<longleftrightarrow>
      (\<exists>entry. cacheMap c u = Some entry \<and> now - timestamp entry \<le> ttlMs c))
   \<and> (\<forall>entry. cacheMap c u = Some entry \<and> now - timestamp entry \<le> ttlMs c \<longrightarrow>
         get c now u = (Some entry, c))
   \<and> (\<forall>entry. cacheMap c u = Some entry \<and> now - timestamp entry > ttlMs c \<longrightarrow>
         get c now u = (None, c\<lparr>cacheMap := (cacheMap c)(u := None)\<rparr>))
   \<and> (cacheMap c u = None \<longrightarrow> get c now u = (None, c))
   \<and> (ttlMs c = 0 \<longrightarrow>
         (fst (get c now u) \<noteq> None \<longleftrightarrow>
            (\<exists>entry. cacheMap c u = Some entry \<and> now \<le> timestamp entry)))"
  by (cases "cacheMap c u") (auto simp: get_def)

theorem get_returns_iff_within_ttl_witness:
  "get cache5 301000 url_a = (Some (ok_entry 1000), cache5)
   \<and> get cache5 301001 url_a = (None, cache5\<lparr>cacheMap := (cacheMap cache5)(url_a := None)\<rparr>)
   \<and> get cache5 301001 ''https://cdn.example.com/b.png'' = (None, cache5)
   \<and> fst (get cache0 1001 url_a) = None
   \<and> fst (get cache0 1000 url_a) \<noteq> None"
proof -
  have other: "cacheMap cache5 ''https://cdn.example.com/b.png'' = None"
    by (simp add: cache5_def set_entry_def UrlCache_new_def url_a_def)
  have t: "timestamp (ok_entry 1000) = 1000"
    by (simp add: ok_entry_def)
  show ?thesis
    using get_returns_iff_within_ttl [of cache5 301000 url_a]
      get_returns_iff_within_ttl [of cache5 301001 url_a]
      get_returns_iff_within_ttl [of cache5 301001 "''https://cdn.example.com/b.png''"]
      get_returns_iff_within_ttl [of cache0 1001 url_a]
      get_returns_iff_within_ttl [of cache0 1000 url_a]
      cache5_entry cache0_entry other t
    by simp
qed

text \<open>
  C3 as stated fails for \<open>ttl = 0\<close>: an entry stored at time 1000 in a cache constructed
  with \<open>ttl = 0\<close> is returned by a \<open>get\<close> at time 1000.
\<close>

theorem get_ttl_zero_counterexample:
  "ttlMs (UrlCache_new 0) = 0
   \<and> fst (get (set_entry (UrlCache_new 0) 1000 ''https://cdn.example.com/a.png''
              \<lparr>isValid = True, statusCode = Some 200, statusText = Some ''OK'', error = None\<rparr>)
            1000 ''https://cdn.example.com/a.png'')
     = Some \<lparr>isValid = True, statusCode = Some 200, statusText = Some ''OK'', error = None,
             timestamp = 1000\<rparr>"
  by (simp add: get_def set_entry_def UrlCache_new_def)

section \<open>The CDN check\<close>

lemma str_includes_sublist: "str_includes s n \<longleftrightarrow> sublist n s"
  by (induction s) (auto simp: sublist_Cons_right)

text \<open>
  C2. \<open>isCdnErrorResponse\<close> is true exactly when the content type of the response
  contains \<open>xml\<close> or \<open>text/html\<close> and its body in lower case contains one of the six
  markers; every other response gives false. Containment is \<open>sublist\<close>: the marker occurs
  as a contiguous run.
\<close>

theorem isCdnErrorResponse_iff:
  "isCdnErrorResponse response \<longleftrightarrow>
     (let contentType = (case map_of (resp_headers response) ''content-type'' of
                           None \<Rightarrow> '''' | Some v \<Rightarrow> v);
          lowerData = toLowerCase (resp_body response)
      in (sublist ''xml'' contentType \<or> sublist ''text/html'' contentType) \<and>
         (sublist ''accessdenied'' lowerData \<or>
          sublist ''nosuchkey'' lowerData \<or>
          sublist ''not found'' lowerData \<or>
          sublist ''does not exist'' lowerData \<or>
          sublist ''<error>'' lowerData \<or>
          sublist ''the specified key does not exist'' lowerData))"
  by (simp add: isCdnErrorResponse_def Let_def str_includes_sublist)

theorem isCdnErrorResponse_iff_witness:
  "isCdnErrorResponse response_nosuchkey \<and> \<not> isCdnErrorResponse response_octet"
proof -
  have a: "sublist ''xml'' ''application/xml''"
    by (simp add: str_includes_sublist [symmetric])
  have b: "sublist ''nosuchkey'' (toLowerCase ''<Error><Code>NoSuchKey</Code></Error>'')"
    by (simp add: str_includes_sublist [symmetric] toLowerCase_def toLowerCase_char_def)
  have c: "\<not> sublist ''xml'' ''application/octet-stream''"
    "\<not> sublist ''text/html'' ''application/octet-stream''"
    by (simp_all add: str_includes_sublist [symmetric])
  show ?thesis
    using isCdnErrorResponse_iff [of response_nosuchkey]
      isCdnErrorResponse_iff [of response_octet] a b c
    by (simp add: response_nosuchkey_def response_octet_def Let_def)
qed

section \<open>The probe\<close>

text \<open>
  A probe changes nothing of the validator but the trace, to which it adds the requests
  it issues, and the flag of its own signal.
\<close>

lemma makeRequest_frame:
  assumes "makeRequest e u m h t sig s = Some y"
  shows "cache (snd y) = cache s \<and> timeoutMs (snd y) = timeoutMs s
         \<and> maxConcurrent (snd y) = maxConcurrent s
         \<and> abortController (snd y) = abortController s
         \<and> allocated (snd y) = allocated s"
proof (rule makeRequest.raw_induct [OF _ assms], goal_cases)
  case (1 mr e u meth hdrs timeout signal s y)
  from 1(2) show ?case
    by (auto split: if_splits sum.splits net_event.splits response_action.splits
        simp: Let_def dest!: 1(1))
qed

lemma makeRequest_trace:
  assumes "makeRequest e u m h t sig s = Some y"
  shows "\<exists>evs. trace (snd y) = trace s @ evs \<and> (\<forall>ev \<in> set evs. \<exists>u'. ev = Request u' m h)"
proof (rule makeRequest.raw_induct [OF _ assms], goal_cases)
  case (1 mr e u meth hdrs timeout signal s y)
  have rec: "\<exists>evs. trace (snd y') = trace s @ evs \<and> (\<forall>ev \<in> set evs. \<exists>u'. ev = Request u' meth hdrs)"
    if "mr e u' meth hdrs timeout signal (s\<lparr>trace := trace s @ [Request u meth hdrs]\<rparr>) = Some y'"
    for u' y'
  proof -
    from 1(1) [OF that] obtain evs where
      "trace (snd y') = (trace s @ [Request u meth hdrs]) @ evs"
      "\<forall>ev \<in> set evs. \<exists>u'. ev = Request u' meth hdrs"
      by auto
    then have "trace (snd y') = trace s @ (Request u meth hdrs # evs)
        \<and> (\<forall>ev \<in> set (Request u meth hdrs # evs). \<exists>u'. ev = Request u' meth hdrs)"
      by simp
    then show ?thesis by blast
  qed
  from 1(2) show ?case
    by (auto split: if_splits sum.splits net_event.splits response_action.splits
        simp: Let_def dest!: rec)
qed

lemma makeRequest_signals:
  assumes "makeRequest e u m h t sig s = Some y"
  shows "(\<forall>a. signals s a \<longrightarrow> signals (snd y) a) \<and> (\<forall>a. a \<noteq> sig \<longrightarrow> signals (snd y) a = signals s a)"
proof (rule makeRequest.raw_induct [OF _ assms], goal_cases)
  case (1 mr e u meth hdrs timeout signal s y)
  from 1(2) show ?case
    by (auto split: if_splits sum.splits net_event.splits response_action.splits
        simp: Let_def dest!: 1(1))
qed

lemma makeRequest_first_request:
  assumes "makeRequest e u m h t sig s = Some (Inr r, s')"
  shows "Request u m h \<in> set (trace s')"
proof -
  from assms have "\<not> signals s sig"
    by (subst (asm) makeRequest.simps) (auto split: if_splits)
  with assms obtain parsed where p: "parseURL e u = Inr parsed"
    by (subst (asm) makeRequest.simps) (auto split: if_splits sum.splits)
  let ?s1 = "s\<lparr>trace := trace s @ [Request u m h]\<rparr>"
  from assms \<open>\<not> signals s sig\<close> p
  have "s' = ?s1 \<or> (\<exists>u'. makeRequest e u' m h t sig ?s1 = Some (Inr r, s'))"
    by (subst (asm) makeRequest.simps)
       (auto split: if_splits sum.splits net_event.splits response_action.splits simp: Let_def)
  then show ?thesis
  proof
    assume "s' = ?s1" then show ?thesis by simp
  next
    assume "\<exists>u'. makeRequest e u' m h t sig ?s1 = Some (Inr r, s')"
    then obtain u' where "makeRequest e u' m h t sig ?s1 = Some (Inr r, s')" ..
    from makeRequest_trace [OF this] show ?thesis by auto
  qed
qed

lemma redirect_loop_never_settles:
  "makeRequest env_example ''http://h/loop'' HEAD [] 5000 0 validator0 = None"
proof (rule ccontr)
  assume "makeRequest env_example ''http://h/loop'' HEAD [] 5000 0 validator0 \<noteq> None"
  then obtain y where y: "makeRequest env_example ''http://h/loop'' HEAD [] 5000 0 validator0 = Some y"
    by auto
  have "\<not> (e = env_example \<and> u = ''http://h/loop'' \<and> \<not> signals s sig)"
    if "makeRequest e u m h t sig s = Some y" for e u m h t sig s y
  proof (rule makeRequest.raw_induct [OF _ that], goal_cases)
    case (1 mr e u meth hdrs timeout signal s y)
    show ?case
    proof
      assume a: "e = env_example \<and> u = ''http://h/loop'' \<and> \<not> signals s signal"
      with 1(2) have "mr env_example ''http://h/loop'' meth hdrs timeout signal
                        (s\<lparr>trace := trace s @ [Request ''http://h/loop'' meth hdrs]\<rparr>) = Some y"
        by (simp add: env_example_def example_parseURL_def example_resolveURL_def
            example_network_def redirect_to_def onResponse_def Let_def)
      from 1(1) [OF this] a show False by simp
    qed
  qed
  from this [OF y] show False
    by (simp add: validator0_def LinkValidator_new_def)
qed

lemma redirect_chain_followed:
  "map_option fst (makeRequest env_example ''http://h/0'' HEAD [] 5000 0 validator0)
     = Some (Inr \<lparr>resp_statusCode = 200, resp_statusText = ''OK'',
                  resp_headers = [(''content-type'', ''image/png'')], resp_body = ''''\<rparr>)
   \<and> map_option (trace \<circ> snd) (makeRequest env_example ''http://h/0'' HEAD [] 5000 0 validator0)
     = Some [Request ''http://h/0'' HEAD [], Request ''http://h/1'' HEAD [],
             Request ''http://h/2'' HEAD [], Request ''http://h/3'' HEAD [],
             Request ''http://h/4'' HEAD [], Request ''http://h/5'' HEAD [],
             Request ''http://h/6'' HEAD []]"
  by code_simp

text \<open>
  C5 (the code follows a sixth redirect). The server redirects \<open>/0\<close> to \<open>/1\<close>, and so on
  up to \<open>/5\<close> to \<open>/6\<close>, each with status 301, and answers \<open>/6\<close> with 200. A probe of
  \<open>/0\<close> issues seven requests and resolves with the 200 of \<open>/6\<close>: the response to the
  sixth request, the 301 of \<open>/5\<close>, is followed, not returned. A probe of \<open>/loop\<close>, which
  the server redirects to itself, never settles.
\<close>

theorem makeRequest_follows_sixth_redirect:
  "map_option fst (makeRequest env_example ''http://h/0'' HEAD [] 5000 0 validator0)
     = Some (Inr \<lparr>resp_statusCode = 200, resp_statusText = ''OK'',
                  resp_headers = [(''content-type'', ''image/png'')], resp_body = ''''\<rparr>)
   \<and> map_option (trace \<circ> snd) (makeRequest env_example ''http://h/0'' HEAD [] 5000 0 validator0)
     = Some [Request ''http://h/0'' HEAD [], Request ''http://h/1'' HEAD [],
             Request ''http://h/2'' HEAD [], Request ''http://h/3'' HEAD [],
             Request ''http://h/4'' HEAD [], Request ''http://h/5'' HEAD [],
             Request ''http://h/6'' HEAD []]
   \<and> makeRequest env_example ''http://h/loop'' HEAD [] 5000 0 validator0 = None"
  using redirect_chain_followed redirect_loop_never_settles by simp

section \<open>Validation of one URL\<close>

lemma validateUrl_miss:
  assumes "get (cache s) (dateNow e (Suc (length (trace s)))) u = (None, c0)"
  shows "validateUrl e u signal s =
     (case validateUrl_try e u signal (s\<lparr>cache := c0, trace := trace s @ [ValidateUrl u, CacheGet u]\<rparr>) of
        None \<Rightarrow> None
      | Some (Inl err, s1) \<Rightarrow> Some (handleError e u err s1)
      | Some (Inr r, s1) \<Rightarrow> Some (r, s1))"
  using assms by (simp add: validateUrl_def)

lemma validateUrl_try_head:
  assumes "makeRequest e u HEAD (browserHeaders e u) (timeoutMs s0) signal s0 = Some (Inr h, s1)"
  shows "validateUrl_try e u signal s0 =
     (if resp_statusCode h \<ge> 200 \<and> resp_statusCode h < 400
      then Some (Inr (fst (cacheAndReturn e u True (resp_statusCode h) (resp_statusText h) s1)),
                 snd (cacheAndReturn e u True (resp_statusCode h) (resp_statusText h) s1))
      else if resp_statusCode h = 404 \<or> resp_statusCode h = 410
      then Some (Inr (fst (cacheAndReturn e u False (resp_statusCode h) (resp_statusText h) s1)),
                 snd (cacheAndReturn e u False (resp_statusCode h) (resp_statusText h) s1))
      else if resp_statusCode h = 403 \<or> resp_statusCode h = 405
      then (case makeRequest e u GET (browserHeaders e u @ [(''Range'', ''bytes=0-1023'')])
                   (timeoutMs s1) signal s1 of
              None \<Rightarrow> None
            | Some (Inl err, s2) \<Rightarrow> Some (Inl err, s2)
            | Some (Inr g, s2) \<Rightarrow>
                if resp_statusCode g \<ge> 200 \<and> resp_statusCode g < 400
                then Some (Inr (fst (cacheAndReturn e u True (resp_statusCode g) (resp_statusText g) s2)),
                           snd (cacheAndReturn e u True (resp_statusCode g) (resp_statusText g) s2))
                else if resp_statusCode g = 403
                then (if isCdnErrorResponse g
                      then Some (Inr (fst (cacheAndReturn e u False 403 ''Not Found (CDN)'' s2)),
                                 snd (cacheAndReturn e u False 403 ''Not Found (CDN)'' s2))
                      else Some (Inr (fst (cacheAndReturn e u True 403 ''Protected'' s2)),
                                 snd (cacheAndReturn e u True 403 ''Protected'' s2)))
                else Some (Inr (fst (cacheAndReturn e u False (resp_statusCode g) (resp_statusText g) s2)),
                           snd (cacheAndReturn e u False (resp_statusCode g) (resp_statusText g) s2)))
      else Some (Inr (fst (cacheAndReturn e u False (resp_statusCode h) (resp_statusText h) s1)),
                 snd (cacheAndReturn e u False (resp_statusCode h) (resp_statusText h) s1)))"
  using assms
  by (auto simp: validateUrl_try_def BROKEN_STATUS_CODES_def Let_def split: option.splits sum.splits prod.splits)

lemma fst_cacheAndReturn:
  "fst (cacheAndReturn e u valid code text s) =
     \<lparr>isValid = valid, statusCode = Some code, statusText = Some text, error = None, url = u\<rparr>"
  by (simp add: cacheAndReturn_def)

text \<open>
  C1. A validation that finds no fresh entry in the cache probes the URL with \<open>HEAD\<close>.
  When that probe resolves with status \<open>S\<close>: for \<open>S\<close> in \<open>[200, 400)\<close> the outcome is
  valid; for \<open>S\<close> 404 or 410 it is broken with that status code; for \<open>S\<close> 403 or 405 a
  \<open>GET\<close> probe with the header \<open>Range: bytes=0-1023\<close> added is issued, and when it
  resolves with status \<open>G\<close>: \<open>G\<close> in \<open>[200, 400)\<close> gives valid, \<open>G = 403\<close> with a CDN
  missing-resource body gives broken with the text \<open>Not Found (CDN)\<close>, \<open>G = 403\<close> without
  one gives valid with the text \<open>Protected\<close>, and any other \<open>G\<close> gives valid exactly
  when \<open>G\<close> is in \<open>[200, 400)\<close>; every other \<open>S\<close> gives valid exactly when \<open>S\<close> is in
  \<open>[200, 400)\<close>. The outcome carries the status code and, but for the two CDN texts, the
  status text of the response that decided it.
\<close>

theorem validateUrl_status_classification:
  assumes miss: "get (cache s) (dateNow e (Suc (length (trace s)))) u = (None, c0)"
    and head: "makeRequest e u HEAD (browserHeaders e u) (timeoutMs s) signal
                 (s\<lparr>cache := c0, trace := trace s @ [ValidateUrl u, CacheGet u]\<rparr>)
               = Some (Inr h, s1)"
  shows
    "(200 \<le> resp_statusCode h \<and> resp_statusCode h < 400 \<longrightarrow>
        (\<exists>s'. validateUrl e u signal s =
           Some (\<lparr>isValid = True, statusCode = Some (resp_statusCode h),
                  statusText = Some (resp_statusText h), error = None, url = u\<rparr>, s')))
   \<and> (resp_statusCode h = 404 \<or> resp_statusCode h = 410 \<longrightarrow>
        (\<exists>s'. validateUrl e u signal s =
           Some (\<lparr>isValid = False, statusCode = Some (resp_statusCode h),
                  statusText = Some (resp_statusText h), error = None, url = u\<rparr>, s')))
   \<and> (resp_statusCode h = 403 \<or> resp_statusCode h = 405 \<longrightarrow>
        (\<forall>g s2. makeRequest e u GET (browserHeaders e u @ [(''Range'', ''bytes=0-1023'')])
                   (timeoutMs s1) signal s1 = Some (Inr g, s2) \<longrightarrow>
           Request u GET (browserHeaders e u @ [(''Range'', ''bytes=0-1023'')]) \<in> set (trace s2)
           \<and> (200 \<le> resp_statusCode g \<and> resp_statusCode g < 400 \<longrightarrow>
                (\<exists>s'. validateUrl e u signal s =
                   Some (\<lparr>isValid = True, statusCode = Some (resp_statusCode g),
                          statusText = Some (resp_statusText g), error = None, url = u\<rparr>, s')))
           \<and> (resp_statusCode g = 403 \<and> isCdnErrorResponse g \<longrightarrow>
                (\<exists>s'. validateUrl e u signal s =
                   Some (\<lparr>isValid = False, statusCode = Some 403,
                          statusText = Some ''Not Found (CDN)'', error = None, url = u\<rparr>, s')))
           \<and> (resp_statusCode g = 403 \<and> \<not> isCdnErrorResponse g \<longrightarrow>
                (\<exists>s'. validateUrl e u signal s =
                   Some (\<lparr>isValid = True, statusCode = Some 403,
                          statusText = Some ''Protected'', error = None, url = u\<rparr>, s')))
           \<and> (resp_statusCode g \<noteq> 403 \<longrightarrow>
                (\<exists>s'. validateUrl e u signal s =
                   Some (\<lparr>isValid = (200 \<le> resp_statusCode g \<and> resp_statusCode g < 400),
                          statusCode = Some (resp_statusCode g),
                          statusText = Some (resp_statusText g), error = None, url = u\<rparr>, s')))))
   \<and> (resp_statusCode h \<noteq> 403 \<and> resp_statusCode h \<noteq> 405 \<longrightarrow>
        (\<exists>s'. validateUrl e u signal s =
           Some (\<lparr>isValid = (200 \<le> resp_statusCode h \<and> resp_statusCode h < 400),
                  statusCode = Some (resp_statusCode h),
                  statusText = Some (resp_statusText h), error = None, url = u\<rparr>, s')))"
proof -
  let ?s0 = "s\<lparr>cache := c0, trace := trace s @ [ValidateUrl u, CacheGet u]\<rparr>"
  have head': "makeRequest e u HEAD (browserHeaders e u) (timeoutMs ?s0) signal ?s0 = Some (Inr h, s1)"
    using head by simp
  note ty = validateUrl_try_head [OF head']
  note v = validateUrl_miss [OF miss, of signal]
  have a: "200 \<le> resp_statusCode h \<and> resp_statusCode h < 400 \<longrightarrow>
        (\<exists>s'. validateUrl e u signal s =
           Some (\<lparr>isValid = True, statusCode = Some (resp_statusCode h),
                  statusText = Some (resp_statusText h), error = None, url = u\<rparr>, s'))"
    by (simp add: v ty fst_cacheAndReturn)
  have b: "resp_statusCode h = 404 \<or> resp_statusCode h = 410 \<longrightarrow>
        (\<exists>s'. validateUrl e u signal s =
           Some (\<lparr>isValid = False, statusCode = Some (resp_statusCode h),
                  statusText = Some (resp_statusText h), error = None, url = u\<rparr>, s'))"
    by (auto simp add: v ty fst_cacheAndReturn)
  have d: "resp_statusCode h \<noteq> 403 \<and> resp_statusCode h \<noteq> 405 \<longrightarrow>
        (\<exists>s'. validateUrl e u signal s =
           Some (\<lparr>isValid = (200 \<le> resp_statusCode h \<and> resp_statusCode h < 400),
                  statusCode = Some (resp_statusCode h),
                  statusText = Some (resp_statusText h), error = None, url = u\<rparr>, s'))"
    by (auto simp add: v ty fst_cacheAndReturn)
  have c: "resp_statusCode h = 403 \<or> resp_statusCode h = 405 \<longrightarrow>
        (\<forall>g s2. makeRequest e u GET (browserHeaders e u @ [(''Range'', ''bytes=0-1023'')])
                   (timeoutMs s1) signal s1 = Some (Inr g, s2) \<longrightarrow>
           Request u GET (browserHeaders e u @ [(''Range'', ''bytes=0-1023'')]) \<in> set (trace s2)
           \<and> (200 \<le> resp_statusCode g \<and> resp_statusCode g < 400 \<longrightarrow>
                (\<exists>s'. validateUrl e u signal s =
                   Some (\<lparr>isValid = True, statusCode = Some (resp_statusCode g),
                          statusText = Some (resp_statusText g), error = None, url = u\<rparr>, s')))
           \<and> (resp_statusCode g = 403 \<and> isCdnErrorResponse g \<longrightarrow>
                (\<exists>s'. validateUrl e u signal s =
                   Some (\<lparr>isValid = False, statusCode = Some 403,
                          statusText = Some ''Not Found (CDN)'', error = None, url = u\<rparr>, s')))
           \<and> (resp_statusCode g = 403 \<and> \<not> isCdnErrorResponse g \<longrightarrow>
                (\<exists>s'. validateUrl e u signal s =
                   Some (\<lparr>isValid = True, statusCode = Some 403,
                          statusText = Some ''Protected'', error = None, url = u\<rparr>, s')))
           \<and> (resp_statusCode g \<noteq> 403 \<longrightarrow>
                (\<exists>s'. validateUrl e u signal s =
                   Some (\<lparr>isValid = (200 \<le> resp_statusCode g \<and> resp_statusCode g < 400),
                          statusCode = Some (resp_statusCode g),
                          statusText = Some (resp_statusText g), error = None, url = u\<rparr>, s'))))"
  proof (intro impI allI)
    fix g s2
    assume hs: "resp_statusCode h = 403 \<or> resp_statusCode h = 405"
      and gt: "makeRequest e u GET (browserHeaders e u @ [(''Range'', ''bytes=0-1023'')])
                   (timeoutMs s1) signal s1 = Some (Inr g, s2)"
    have r: "Request u GET (browserHeaders e u @ [(''Range'', ''bytes=0-1023'')]) \<in> set (trace s2)"
      by (rule makeRequest_first_request [OF gt])
    from hs have t: "validateUrl_try e u signal ?s0 =
                (if resp_statusCode g \<ge> 200 \<and> resp_statusCode g < 400
                then Some (Inr (fst (cacheAndReturn e u True (resp_statusCode g) (resp_statusText g) s2)),
                           snd (cacheAndReturn e u True (resp_statusCode g) (resp_statusText g) s2))
                else if resp_statusCode g = 403
                then (if isCdnErrorResponse g
                      then Some (Inr (fst (cacheAndReturn e u False 403 ''Not Found (CDN)'' s2)),
                                 snd (cacheAndReturn e u False 403 ''Not Found (CDN)'' s2))
                      else Some (Inr (fst (cacheAndReturn e u True 403 ''Protected'' s2)),
                                 snd (cacheAndReturn e u True 403 ''Protected'' s2)))
                else Some (Inr (fst (cacheAndReturn e u False (resp_statusCode g) (resp_statusText g) s2)),
                           snd (cacheAndReturn e u False (resp_statusCode g) (resp_statusText g) s2)))"
      by (auto simp add: ty gt)
    show "Request u GET (browserHeaders e u @ [(''Range'', ''bytes=0-1023'')]) \<in> set (trace s2)
           \<and> (200 \<le> resp_statusCode g \<and> resp_statusCode g < 400 \<longrightarrow>
                (\<exists>s'. validateUrl e u signal s =
                   Some (\<lparr>isValid = True, statusCode = Some (resp_statusCode g),
                          statusText = Some (resp_statusText g), error = None, url = u\<rparr>, s')))
           \<and> (resp_statusCode g = 403 \<and> isCdnErrorResponse g \<longrightarrow>
                (\<exists>s'. validateUrl e u signal s =
                   Some (\<lparr>isValid = False, statusCode = Some 403,
                          statusText = Some ''Not Found (CDN)'', error = None, url = u\<rparr>, s')))
           \<and> (resp_statusCode g = 403 \<and> \<not> isCdnErrorResponse g \<longrightarrow>
                (\<exists>s'. validateUrl e u signal s =
                   Some (\<lparr>isValid = True, statusCode = Some 403,
                          statusText = Some ''Protected'', error = None, url = u\<rparr>, s')))
           \<and> (resp_statusCode g \<noteq> 403 \<longrightarrow>
                (\<exists>s'. validateUrl e u signal s =
                   Some (\<lparr>isValid = (200 \<le> resp_statusCode g \<and> resp_statusCode g < 400),
                          statusCode = Some (resp_statusCode g),
                          statusText = Some (resp_statusText g), error = None, url = u\<rparr>, s')))"
      using r by (auto simp add: v t fst_cacheAndReturn)
  qed
  from a b c d show ?thesis by blast
qed

lemmas example_defs = env_example_def example_parseURL_def example_resolveURL_def
  example_network_def respond_def redirect_to_def onResponse_def validator0_def
  LinkValidator_new_def UrlCache_new_def browserHeaders_def getOrigin_def Let_def

lemma example_miss:
  "get (cache validator0) (dateNow env_example (Suc (length (trace validator0)))) u
     = (None, cache validator0)"
  by (simp add: get_def validator0_def LinkValidator_new_def UrlCache_new_def)

lemma example_head_ok:
  "makeRequest env_example ''http://h/ok.png'' HEAD (browserHeaders env_example ''http://h/ok.png'')
     (timeoutMs validator0) 0
     (validator0\<lparr>cache := cache validator0,
                 trace := trace validator0 @ [ValidateUrl ''http://h/ok.png'', CacheGet ''http://h/ok.png'']\<rparr>)
   = Some (Inr \<lparr>resp_statusCode = 200, resp_statusText = ''OK'',
                resp_headers = [(''content-type'', ''image/png'')], resp_body = ''''\<rparr>,
           validator0\<lparr>cache := cache validator0,
                     trace := [ValidateUrl ''http://h/ok.png'', CacheGet ''http://h/ok.png'',
                               Request ''http://h/ok.png'' HEAD (browserHeaders env_example ''http://h/ok.png'')]\<rparr>)"
  by (subst makeRequest.simps) (simp add: example_defs)

lemma example_head_missing:
  "makeRequest env_example ''http://h/missing'' HEAD (browserHeaders env_example ''http://h/missing'')
     (timeoutMs validator0) 0
     (validator0\<lparr>cache := cache validator0,
                 trace := trace validator0 @ [ValidateUrl ''http://h/missing'', CacheGet ''http://h/missing'']\<rparr>)
   = Some (Inr \<lparr>resp_statusCode = 404, resp_statusText = ''Not Found'',
                resp_headers = [(''content-type'', ''text/html'')], resp_body = ''''\<rparr>,
           validator0\<lparr>cache := cache validator0,
                     trace := [ValidateUrl ''http://h/missing'', CacheGet ''http://h/missing'',
                               Request ''http://h/missing'' HEAD (browserHeaders env_example ''http://h/missing'')]\<rparr>)"
  by (subst makeRequest.simps) (simp add: example_defs)

lemma example_head_gone:
  "makeRequest env_example ''http://h/gone'' HEAD (browserHeaders env_example ''http://h/gone'')
     (timeoutMs validator0) 0
     (validator0\<lparr>cache := cache validator0,
                 trace := trace validator0 @ [ValidateUrl ''http://h/gone'', CacheGet ''http://h/gone'']\<rparr>)
   = Some (Inr \<lparr>resp_statusCode = 410, resp_statusText = ''Gone'',
                resp_headers = [(''content-type'', ''text/html'')], resp_body = ''''\<rparr>,
           validator0\<lparr>cache := cache validator0,
                     trace := [ValidateUrl ''http://h/gone'', CacheGet ''http://h/gone'',
                               Request ''http://h/gone'' HEAD (browserHeaders env_example ''http://h/gone'')]\<rparr>)"
  by (subst makeRequest.simps) (simp add: example_defs)

lemma example_head_head_blocked:
  "makeRequest env_example ''http://h/head-blocked'' HEAD (browserHeaders env_example ''http://h/head-blocked'')
     (timeoutMs validator0) 0
     (validator0\<lparr>cache := cache validator0,
                 trace := trace validator0 @ [ValidateUrl ''http://h/head-blocked'', CacheGet ''http://h/head-blocked'']\<rparr>)
   = Some (Inr \<lparr>resp_statusCode = 403, resp_statusText = ''Forbidden'',
                resp_headers = [(''content-type'', ''text/plain'')], resp_body = ''''\<rparr>,
           validator0\<lparr>cache := cache validator0,
                     trace := [ValidateUrl ''http://h/head-blocked'', CacheGet ''http://h/head-blocked'',
                               Request ''http://h/head-blocked'' HEAD (browserHeaders env_example ''http://h/head-blocked'')]\<rparr>)"
  by (subst makeRequest.simps) (simp add: example_defs)

lemma example_get_head_blocked:
  "makeRequest env_example ''http://h/head-blocked'' GET
     (browserHeaders env_example ''http://h/head-blocked'' @ [(''Range'', ''bytes=0-1023'')]) 5000 0
     (validator0\<lparr>cache := cache validator0,
                 trace := [ValidateUrl ''http://h/head-blocked'', CacheGet ''http://h/head-blocked'',
                           Request ''http://h/head-blocked'' HEAD (browserHeaders env_example ''http://h/head-blocked'')]\<rparr>)
   = Some (Inr \<lparr>resp_statusCode = 206, resp_statusText = ''Partial Content'',
                resp_headers = [(''content-type'', ''image/png'')], resp_body = ''PNG''\<rparr>,
           validator0\<lparr>cache := cache validator0,
                     trace := [ValidateUrl ''http://h/head-blocked'', CacheGet ''http://h/head-blocked'',
                               Request ''http://h/head-blocked'' HEAD (browserHeaders env_example ''http://h/head-blocked''),
                               Request ''http://h/head-blocked'' GET
                                 (browserHeaders env_example ''http://h/head-blocked'' @ [(''Range'', ''bytes=0-1023'')])]\<rparr>)"
  by (subst makeRequest.simps) (simp add: example_defs)

lemma example_head_cdn_missing:
  "makeRequest env_example ''http://h/cdn-missing'' HEAD (browserHeaders env_example ''http://h/cdn-missing'')
     (timeoutMs validator0) 0
     (validator0\<lparr>cache := cache validator0,
                 trace := trace validator0 @ [ValidateUrl ''http://h/cdn-missing'', CacheGet ''http://h/cdn-missing'']\<rparr>)
   = Some (Inr \<lparr>resp_statusCode = 403, resp_statusText = ''Forbidden'',
                resp_headers = [(''content-type'', ''application/xml'')], resp_body = ''''\<rparr>,
           validator0\<lparr>cache := cache validator0,
                     trace := [ValidateUrl ''http://h/cdn-missing'', CacheGet ''http://h/cdn-missing'',
                               Request ''http://h/cdn-missing'' HEAD (browserHeaders env_example ''http://h/cdn-missing'')]\<rparr>)"
  by (subst makeRequest.simps) (simp add: example_defs)

lemma example_get_cdn_missing:
  "makeRequest env_example ''http://h/cdn-missing'' GET
     (browserHeaders env_example ''http://h/cdn-missing'' @ [(''Range'', ''bytes=0-1023'')]) 5000 0
     (validator0\<lparr>cache := cache validator0,
                 trace := [ValidateUrl ''http://h/cdn-missing'', CacheGet ''http://h/cdn-missing'',
                           Request ''http://h/cdn-missing'' HEAD (browserHeaders env_example ''http://h/cdn-missing'')]\<rparr>)
   = Some (Inr \<lparr>resp_statusCode = 403, resp_statusText = ''Forbidden'',
                resp_headers = [(''content-type'', ''application/xml'')], resp_body = ''<Error><Code>NoSuchKey</Code></Error>''\<rparr>,
           validator0\<lparr>cache := cache validator0,
                     trace := [ValidateUrl ''http://h/cdn-missing'', CacheGet ''http://h/cdn-missing'',
                               Request ''http://h/cdn-missing'' HEAD (browserHeaders env_example ''http://h/cdn-missing''),
                               Request ''http://h/cdn-missing'' GET
                                 (browserHeaders env_example ''http://h/cdn-missing'' @ [(''Range'', ''bytes=0-1023'')])]\<rparr>)"
  by (subst makeRequest.simps) (simp add: example_defs)

lemma example_head_protected:
  "makeRequest env_example ''http://h/protected'' HEAD (browserHeaders env_example ''http://h/protected'')
     (timeoutMs validator0) 0
     (validator0\<lparr>cache := cache validator0,
                 trace := trace validator0 @ [ValidateUrl ''http://h/protected'', CacheGet ''http://h/protected'']\<rparr>)
   = Some (Inr \<lparr>resp_statusCode = 403, resp_statusText = ''Forbidden'',
                resp_headers = [(''content-type'', ''application/octet-stream'')], resp_body = ''''\<rparr>,
           validator0\<lparr>cache := cache validator0,
                     trace := [ValidateUrl ''http://h/protected'', CacheGet ''http://h/protected'',
                               Request ''http://h/protected'' HEAD (browserHeaders env_example ''http://h/protected'')]\<rparr>)"
  by (subst makeRequest.simps) (simp add: example_defs)

lemma example_get_protected:
  "makeRequest env_example ''http://h/protected'' GET
     (browserHeaders env_example ''http://h/protected'' @ [(''Range'', ''bytes=0-1023'')]) 5000 0
     (validator0\<lparr>cache := cache validator0,
                 trace := [ValidateUrl ''http://h/protected'', CacheGet ''http://h/protected'',
                           Request ''http://h/protected'' HEAD (browserHeaders env_example ''http://h/protected'')]\<rparr>)
   = Some (Inr \<lparr>resp_statusCode = 403, resp_statusText = ''Forbidden'',
                resp_headers = [(''content-type'', ''application/octet-stream'')], resp_body = ''''\<rparr>,
           validator0\<lparr>cache := cache validator0,
                     trace := [ValidateUrl ''http://h/protected'', CacheGet ''http://h/protected'',
                               Request ''http://h/protected'' HEAD (browserHeaders env_example ''http://h/protected''),
                               Request ''http://h/protected'' GET
                                 (browserHeaders env_example ''http://h/protected'' @ [(''Range'', ''bytes=0-1023'')])]\<rparr>)"
  by (subst makeRequest.simps) (simp add: example_defs)

lemma example_head_no_head:
  "makeRequest env_example ''http://h/no-head'' HEAD (browserHeaders env_example ''http://h/no-head'')
     (timeoutMs validator0) 0
     (validator0\<lparr>cache := cache validator0,
                 trace := trace validator0 @ [ValidateUrl ''http://h/no-head'', CacheGet ''http://h/no-head'']\<rparr>)
   = Some (Inr \<lparr>resp_statusCode = 405, resp_statusText = ''Method Not Allowed'',
                resp_headers = [(''content-type'', ''text/plain'')], resp_body = ''''\<rparr>,
           validator0\<lparr>cache := cache validator0,
                     trace := [ValidateUrl ''http://h/no-head'', CacheGet ''http://h/no-head'',
                               Request ''http://h/no-head'' HEAD (browserHeaders env_example ''http://h/no-head'')]\<rparr>)"
  by (subst makeRequest.simps) (simp add: example_defs)

lemma example_get_no_head:
  "makeRequest env_example ''http://h/no-head'' GET
     (browserHeaders env_example ''http://h/no-head'' @ [(''Range'', ''bytes=0-1023'')]) 5000 0
     (validator0\<lparr>cache := cache validator0,
                 trace := [ValidateUrl ''http://h/no-head'', CacheGet ''http://h/no-head'',
                           Request ''http://h/no-head'' HEAD (browserHeaders env_example ''http://h/no-head'')]\<rparr>)
   = Some (Inr \<lparr>resp_statusCode = 404, resp_statusText = ''Not Found'',
                resp_headers = [(''content-type'', ''text/plain'')], resp_body = ''nothing here''\<rparr>,
           validator0\<lparr>cache := cache validator0,
                     trace := [ValidateUrl ''http://h/no-head'', CacheGet ''http://h/no-head'',
                               Request ''http://h/no-head'' HEAD (browserHeaders env_example ''http://h/no-head''),
                               Request ''http://h/no-head'' GET
                                 (browserHeaders env_example ''http://h/no-head'' @ [(''Range'', ''bytes=0-1023'')])]\<rparr>)"
  by (subst makeRequest.simps) (simp add: example_defs)

lemma example_head_broken_server:
  "makeRequest env_example ''http://h/broken-server'' HEAD (browserHeaders env_example ''http://h/broken-server'')
     (timeoutMs validator0) 0
     (validator0\<lparr>cache := cache validator0,
                 trace := trace validator0 @ [ValidateUrl ''http://h/broken-server'', CacheGet ''http://h/broken-server'']\<rparr>)
   = Some (Inr \<lparr>resp_statusCode = 500, resp_statusText = ''Internal Server Error'',
                resp_headers = [(''content-type'', ''text/plain'')], resp_body = ''''\<rparr>,
           validator0\<lparr>cache := cache validator0,
                     trace := [ValidateUrl ''http://h/broken-server'', CacheGet ''http://h/broken-server'',
                               Request ''http://h/broken-server'' HEAD (browserHeaders env_example ''http://h/broken-server'')]\<rparr>)"
  by (subst makeRequest.simps) (simp add: example_defs)

theorem validateUrl_status_classification_witness:
  "map_option fst (validateUrl env_example ''http://h/ok.png'' 0 validator0)
     = Some \<lparr>isValid = True, statusCode = Some 200, statusText = Some ''OK'',
             error = None, url = ''http://h/ok.png''\<rparr>
   \<and> map_option fst (validateUrl env_example ''http://h/missing'' 0 validator0)
     = Some \<lparr>isValid = False, statusCode = Some 404, statusText = Some ''Not Found'',
             error = None, url = ''http://h/missing''\<rparr>
   \<and> map_option fst (validateUrl env_example ''http://h/gone'' 0 validator0)
     = Some \<lparr>isValid = False, statusCode = Some 410, statusText = Some ''Gone'',
             error = None, url = ''http://h/gone''\<rparr>
   \<and> map_option fst (validateUrl env_example ''http://h/head-blocked'' 0 validator0)
     = Some \<lparr>isValid = True, statusCode = Some 206, statusText = Some ''Partial Content'',
             error = None, url = ''http://h/head-blocked''\<rparr>
   \<and> map_option fst (validateUrl env_example ''http://h/cdn-missing'' 0 validator0)
     = Some \<lparr>isValid = False, statusCode = Some 403, statusText = Some ''Not Found (CDN)'',
             error = None, url = ''http://h/cdn-missing''\<rparr>
   \<and> map_option fst (validateUrl env_example ''http://h/protected'' 0 validator0)
     = Some \<lparr>isValid = True, statusCode = Some 403, statusText = Some ''Protected'',
             error = None, url = ''http://h/protected''\<rparr>
   \<and> map_option fst (validateUrl env_example ''http://h/no-head'' 0 validator0)
     = Some \<lparr>isValid = False, statusCode = Some 404, statusText = Some ''Not Found'',
             error = None, url = ''http://h/no-head''\<rparr>
   \<and> map_option fst (validateUrl env_example ''http://h/broken-server'' 0 validator0)
     = Some \<lparr>isValid = False, statusCode = Some 500, statusText = Some ''Internal Server Error'',
             error = None, url = ''http://h/broken-server''\<rparr>"
proof -
  have cdn:
    "isCdnErrorResponse \<lparr>resp_statusCode = 403, resp_statusText = ''Forbidden'',
        resp_headers = [(''content-type'', ''application/xml'')],
        resp_body = ''<Error><Code>NoSuchKey</Code></Error>''\<rparr>"
    "\<not> isCdnErrorResponse \<lparr>resp_statusCode = 403, resp_statusText = ''Forbidden'',
        resp_headers = [(''content-type'', ''application/octet-stream'')], resp_body = ''''\<rparr>"
    by (simp_all add: isCdnErrorResponse_def toLowerCase_def toLowerCase_char_def)
  have t: "timeoutMs validator0 = 5000" "trace validator0 = []"
    by (simp_all add: validator0_def LinkValidator_new_def)
  have r0: "\<exists>s'. validateUrl env_example ''http://h/ok.png'' 0 validator0 =
      Some (\<lparr>isValid = True, statusCode = Some 200, statusText = Some ''OK'',
             error = None, url = ''http://h/ok.png''\<rparr>, s')"
    using validateUrl_status_classification [OF example_miss example_head_ok]
    by simp
  have r1: "\<exists>s'. validateUrl env_example ''http://h/missing'' 0 validator0 =
      Some (\<lparr>isValid = False, statusCode = Some 404, statusText = Some ''Not Found'',
             error = None, url = ''http://h/missing''\<rparr>, s')"
    using validateUrl_status_classification [OF example_miss example_head_missing]
    by simp
  have r2: "\<exists>s'. validateUrl env_example ''http://h/gone'' 0 validator0 =
      Some (\<lparr>isValid = False, statusCode = Some 410, statusText = Some ''Gone'',
             error = None, url = ''http://h/gone''\<rparr>, s')"
    using validateUrl_status_classification [OF example_miss example_head_gone]
    by simp
  have r3: "\<exists>s'. validateUrl env_example ''http://h/head-blocked'' 0 validator0 =
      Some (\<lparr>isValid = True, statusCode = Some 206, statusText = Some ''Partial Content'',
             error = None, url = ''http://h/head-blocked''\<rparr>, s')"
    using validateUrl_status_classification [OF example_miss example_head_head_blocked]
      example_get_head_blocked cdn
    by (simp add: t)
  have r4: "\<exists>s'. validateUrl env_example ''http://h/cdn-missing'' 0 validator0 =
      Some (\<lparr>isValid = False, statusCode = Some 403, statusText = Some ''Not Found (CDN)'',
             error = None, url = ''http://h/cdn-missing''\<rparr>, s')"
    using validateUrl_status_classification [OF example_miss example_head_cdn_missing]
      example_get_cdn_missing cdn
    by (simp add: t)
  have r5: "\<exists>s'. validateUrl env_example ''http://h/protected'' 0 validator0 =
      Some (\<lparr>isValid = True, statusCode = Some 403, statusText = Some ''Protected'',
             error = None, url = ''http://h/protected''\<rparr>, s')"
    using validateUrl_status_classification [OF example_miss example_head_protected]
      example_get_protected cdn
    by (simp add: t)
  have r6: "\<exists>s'. validateUrl env_example ''http://h/no-head'' 0 validator0 =
      Some (\<lparr>isValid = False, statusCode = Some 404, statusText = Some ''Not Found'',
             error = None, url = ''http://h/no-head''\<rparr>, s')"
    using validateUrl_status_classification [OF example_miss example_head_no_head]
      example_get_no_head cdn
    by (simp add: t)
  have r7: "\<exists>s'. validateUrl env_example ''http://h/broken-server'' 0 validator0 =
      Some (\<lparr>isValid = False, statusCode = Some 500, statusText = Some ''Internal Server Error'',
             error = None, url = ''http://h/broken-server''\<rparr>, s')"
    using validateUrl_status_classification [OF example_miss example_head_broken_server]
    by simp
  from r0 r1 r2 r3 r4 r5 r6 r7 show ?thesis by auto
qed

section \<open>Transport failures\<close>

lemma get_None:
  assumes "get c now u = (None, c0)"
  shows "cacheMap c0 u = None \<and> (\<forall>k. k \<noteq> u \<longrightarrow> cacheMap c0 k = cacheMap c k) \<and> ttlMs c0 = ttlMs c"
  using assms by (auto simp: get_def split: option.splits if_splits)

lemma validateUrl_try_cases:
  assumes "validateUrl_try e u sig s0 = Some (res, s1)"
  shows "(\<exists>err evs. res = Inl err \<and> cache s1 = cache s0
            \<and> trace s1 = trace s0 @ evs \<and> (\<forall>ev \<in> set evs. \<exists>u' m h. ev = Request u' m h))
       \<or> (\<exists>valid code text s' evs.
            res = Inr (fst (cacheAndReturn e u valid code text s'))
            \<and> s1 = snd (cacheAndReturn e u valid code text s')
            \<and> cache s' = cache s0
            \<and> trace s' = trace s0 @ evs \<and> (\<forall>ev \<in> set evs. \<exists>u' m h. ev = Request u' m h)
            \<and> (valid \<longrightarrow> code \<noteq> 404 \<and> code \<noteq> 410))"
proof (cases "makeRequest e u HEAD (browserHeaders e u) (timeoutMs s0) sig s0")
  case None
  with assms show ?thesis by (simp add: validateUrl_try_def)
next
  case (Some y)
  obtain hr sh where y: "y = (hr, sh)" by (cases y)
  from makeRequest_frame [OF Some] makeRequest_trace [OF Some] y
  obtain evs where fh: "cache sh = cache s0" "trace sh = trace s0 @ evs"
      "\<forall>ev \<in> set evs. \<exists>u' m h. ev = Request u' m h"
    by auto blast
  show ?thesis
  proof (cases hr)
    case (Inl err)
    with assms Some y fh show ?thesis
      by (auto simp: validateUrl_try_def)
  next
    case (Inr h)
    note head = Some [unfolded y Inr]
    note ty = validateUrl_try_head [OF head]
    show ?thesis
    proof (cases "resp_statusCode h = 403 \<or> resp_statusCode h = 405")
      case False
      with assms ty fh show ?thesis
        apply (simp split: if_splits)
          apply (rule disjI2, rule exI [where x=True], rule exI [where x="resp_statusCode h"],
            rule exI [where x="resp_statusText h"], rule exI [where x=sh], auto)[1]
         apply (rule disjI2, rule exI [where x=False], rule exI [where x="resp_statusCode h"],
            rule exI [where x="resp_statusText h"], rule exI [where x=sh], auto)[1]
        apply (rule disjI2, rule exI [where x=False], rule exI [where x="resp_statusCode h"],
            rule exI [where x="resp_statusText h"], rule exI [where x=sh], auto)[1]
        done
    next
      case True
      then have nr: "\<not> (200 \<le> resp_statusCode h \<and> resp_statusCode h < 400)"
        "\<not> (resp_statusCode h = 404 \<or> resp_statusCode h = 410)" by auto
      show ?thesis
      proof (cases "makeRequest e u GET (browserHeaders e u @ [(''Range'', ''bytes=0-1023'')])
                   (timeoutMs sh) sig sh")
        case None
        with assms ty True nr show ?thesis by simp
      next
        case (Some z)
        obtain gr sg where z: "z = (gr, sg)" by (cases z)
        from makeRequest_frame [OF Some] makeRequest_trace [OF Some] z fh
        obtain evs' where fg: "cache sg = cache s0" "trace sg = trace s0 @ evs'"
          "\<forall>ev \<in> set evs'. \<exists>u' m h. ev = Request u' m h"
          by auto blast
        show ?thesis
        proof (cases gr)
          case (Inl err)
          with assms ty True nr Some z fg show ?thesis by auto
        next
          case (Inr g)
          with assms ty True nr Some z fg show ?thesis
            apply (simp split: if_splits)
               apply (rule disjI2, rule exI [where x=True], rule exI [where x="resp_statusCode g"],
                rule exI [where x="resp_statusText g"], rule exI [where x=sg], auto)[1]
              apply (rule disjI2, rule exI [where x=False], rule exI [where x=403],
                rule exI [where x="''Not Found (CDN)''"], rule exI [where x=sg], auto)[1]
             apply (rule disjI2, rule exI [where x=True], rule exI [where x=403],
                rule exI [where x="''Protected''"], rule exI [where x=sg], auto)[1]
            apply (rule disjI2, rule exI [where x=False], rule exI [where x="resp_statusCode g"],
                rule exI [where x="resp_statusText g"], rule exI [where x=sg], auto)[1]
            done
        qed
      qed
    qed
  qed
qed

















section \<open>Cancellation and the cache\<close>

lemma cacheAndReturn_cached:
  "cacheMap (cache (snd (cacheAndReturn e u valid code text s))) u =
     Some \<lparr>isValid = valid, statusCode = Some code, statusText = Some text, error = None,
           timestamp = dateNow e (length (trace s))\<rparr>
   \<and> trace (snd (cacheAndReturn e u valid code text s)) = trace s @ [CacheSet u]"
  by (simp add: cacheAndReturn_def set_entry_def)

lemma handleError_cached:
  assumes "err \<noteq> Error ''Request cancelled''"
  shows "cacheMap (cache (snd (handleError e u err s))) u =
     Some \<lparr>isValid = isValid (fst (handleError e u err s)),
           statusCode = statusCode (fst (handleError e u err s)),
           statusText = statusText (fst (handleError e u err s)),
           error = error (fst (handleError e u err s)),
           timestamp = dateNow e (length (trace s))\<rparr>
   \<and> trace (snd (handleError e u err s)) = trace s @ [CacheSet u]"
  using assms by (cases err) (simp_all add: handleError_def set_entry_def Let_def)

text \<open>
  C4. Let a validation find no fresh entry in the cache. When its \<open>try\<close> block ends with
  the error \<open>Request cancelled\<close>, \<open>handleError\<close> returns the outcome \<open>isValid = True\<close>,
  \<open>error = Request cancelled\<close> and leaves the validator as it is, so the result of
  \<open>validateUrl\<close> is that outcome; nothing was written to the cache: since the opening
  lookup the cache is unchanged, it holds no entry for the URL, its entries for other URLs
  are those it had before the validation, and no \<open>set\<close> was called. (The opening lookup
  removes an expired entry of the URL; with no entry stored for the URL the cache is the
  one before the validation.) When the \<open>try\<close> block ends in any other way and the
  validation returns, the cache holds the returned outcome under the URL, stamped with
  the time of the write, and the write is the last call made before returning.
\<close>

theorem cancelled_validation_not_cached:
  assumes miss: "get (cache s) (dateNow e (Suc (length (trace s)))) u = (None, c0)"
  shows
    "(\<forall>s1. validateUrl_try e u signal
              (s\<lparr>cache := c0, trace := trace s @ [ValidateUrl u, CacheGet u]\<rparr>)
            = Some (Inl (Error ''Request cancelled''), s1) \<longrightarrow>
        validateUrl e u signal s =
          Some (\<lparr>isValid = True, statusCode = None, statusText = None,
                 error = Some ''Request cancelled'', url = u\<rparr>, s1)
        \<and> handleError e u (Error ''Request cancelled'') s1 =
            (\<lparr>isValid = True, statusCode = None, statusText = None,
              error = Some ''Request cancelled'', url = u\<rparr>, s1)
        \<and> cache s1 = c0
        \<and> cacheMap (cache s1) u = None
        \<and> (\<forall>k. k \<noteq> u \<longrightarrow> cacheMap (cache s1) k = cacheMap (cache s) k)
        \<and> (cacheMap (cache s) u = None \<longrightarrow> cache s1 = cache s)
        \<and> (\<forall>v. CacheSet v \<notin> set (drop (length (trace s)) (trace s1))))
   \<and> (\<forall>r s'. validateUrl e u signal s = Some (r, s') \<and>
        \<not> (\<exists>s1. validateUrl_try e u signal
                    (s\<lparr>cache := c0, trace := trace s @ [ValidateUrl u, CacheGet u]\<rparr>)
                  = Some (Inl (Error ''Request cancelled''), s1)) \<longrightarrow>
        cacheMap (cache s') u =
          Some \<lparr>isValid = isValid r, statusCode = statusCode r, statusText = statusText r,
                error = error r, timestamp = dateNow e (length (trace s') - 1)\<rparr>
        \<and> last (trace s') = CacheSet u)"
proof -
  let ?s0 = "s\<lparr>cache := c0, trace := trace s @ [ValidateUrl u, CacheGet u]\<rparr>"
  note v = validateUrl_miss [OF miss, of signal]
  note g = get_None [OF miss]
  have A: "validateUrl e u signal s =
          Some (\<lparr>isValid = True, statusCode = None, statusText = None,
                 error = Some ''Request cancelled'', url = u\<rparr>, s1)
        \<and> handleError e u (Error ''Request cancelled'') s1 =
            (\<lparr>isValid = True, statusCode = None, statusText = None,
              error = Some ''Request cancelled'', url = u\<rparr>, s1)
        \<and> cache s1 = c0
        \<and> cacheMap (cache s1) u = None
        \<and> (\<forall>k. k \<noteq> u \<longrightarrow> cacheMap (cache s1) k = cacheMap (cache s) k)
        \<and> (cacheMap (cache s) u = None \<longrightarrow> cache s1 = cache s)
        \<and> (\<forall>v. CacheSet v \<notin> set (drop (length (trace s)) (trace s1)))"
    if t: "validateUrl_try e u signal ?s0 = Some (Inl (Error ''Request cancelled''), s1)" for s1
  proof -
    have h: "handleError e u (Error ''Request cancelled'') s1 =
            (\<lparr>isValid = True, statusCode = None, statusText = None,
              error = Some ''Request cancelled'', url = u\<rparr>, s1)"
      by (simp add: handleError_def)
    from validateUrl_try_cases [OF t] obtain evs where
      f: "cache s1 = cache ?s0" "trace s1 = trace ?s0 @ evs"
         "\<forall>ev \<in> set evs. \<exists>u' m h. ev = Request u' m h"
      by auto
    from f(1) have c: "cache s1 = c0" by simp
    have same: "cache s1 = cache s" if "cacheMap (cache s) u = None"
      using get_miss [OF that, of "dateNow e (Suc (length (trace s)))"] miss c by simp
    have nos: "CacheSet v \<notin> set (drop (length (trace s)) (trace s1))" for v
      using f(2,3) by auto
    from t h c g same nos show ?thesis
      by (simp add: v)
  qed
  have B: "cacheMap (cache s') u =
          Some \<lparr>isValid = isValid r, statusCode = statusCode r, statusText = statusText r,
                error = error r, timestamp = dateNow e (length (trace s') - 1)\<rparr>
        \<and> last (trace s') = CacheSet u"
    if r: "validateUrl e u signal s = Some (r, s')"
      and nc: "\<not> (\<exists>s1. validateUrl_try e u signal ?s0 = Some (Inl (Error ''Request cancelled''), s1))"
    for r s'
  proof (cases "validateUrl_try e u signal ?s0")
    case None
    with r show ?thesis by (simp add: v)
  next
    case (Some y)
    obtain res s1 where y: "y = (res, s1)" by (cases y)
    show ?thesis
    proof (cases res)
      case (Inl err)
      with Some y nc have ne: "err \<noteq> Error ''Request cancelled''" by auto
      from r Some y Inl have "(r, s') = handleError e u err s1" by (simp add: v)
      then have "r = fst (handleError e u err s1)" "s' = snd (handleError e u err s1)"
        by (metis fst_conv, metis snd_conv)
      with handleError_cached [OF ne, of e u s1] show ?thesis by simp
    next
      case (Inr r')
      with r Some y have rs: "r = r'" "s' = s1" by (simp_all add: v)
      from validateUrl_try_cases [OF Some [unfolded y]] Inr
      obtain valid code tx sp where
        "r' = fst (cacheAndReturn e u valid code tx sp)"
        "s1 = snd (cacheAndReturn e u valid code tx sp)"
        by auto
      with cacheAndReturn_cached [of e u valid code tx sp] rs show ?thesis
        by (simp add: fst_cacheAndReturn)
    qed
  qed
  from A B show ?thesis by blast
qed

theorem cancelled_validation_not_cached_witness:
  "(\<exists>s1. validateUrl env_example ''http://h/abort'' 0 validator0 =
          Some (\<lparr>isValid = True, statusCode = None, statusText = None,
                 error = Some ''Request cancelled'', url = ''http://h/abort''\<rparr>, s1)
        \<and> signals s1 0
        \<and> cache s1 = cache validator0
        \<and> cacheMap (cache s1) ''http://h/abort'' = None)
   \<and> (\<exists>s'. validateUrl env_example ''http://h/ok.png'' 0 validator0 =
          Some (\<lparr>isValid = True, statusCode = Some 200, statusText = Some ''OK'',
                 error = None, url = ''http://h/ok.png''\<rparr>, s')
        \<and> cacheMap (cache s') ''http://h/ok.png'' =
            Some \<lparr>isValid = True, statusCode = Some 200, statusText = Some ''OK'',
                  error = None, timestamp = 1003\<rparr>
        \<and> last (trace s') = CacheSet ''http://h/ok.png'')"
proof -
  let ?a = "''http://h/abort''"
  let ?s0 = "validator0\<lparr>cache := cache validator0,
                         trace := trace validator0 @ [ValidateUrl ?a, CacheGet ?a]\<rparr>"
  let ?s1 = "validator0\<lparr>cache := cache validator0,
                         trace := [ValidateUrl ?a, CacheGet ?a,
                                   Request ?a HEAD (browserHeaders env_example ?a)],
                         signals := (signals validator0)(0 := True)\<rparr>"
  have "makeRequest env_example ?a HEAD (browserHeaders env_example ?a) 5000 0 ?s0
          = Some (Inl (Error ''Request cancelled''), ?s1)"
    by (subst makeRequest.simps) (simp add: example_defs)
  then have t: "validateUrl_try env_example ?a 0 ?s0 = Some (Inl (Error ''Request cancelled''), ?s1)"
    by (simp add: validateUrl_try_def validator0_def LinkValidator_new_def)
  from cancelled_validation_not_cached [OF example_miss [of "''http://h/abort''"], of 0] t
  have a: "validateUrl env_example ?a 0 validator0 =
          Some (\<lparr>isValid = True, statusCode = None, statusText = None,
                 error = Some ''Request cancelled'', url = ?a\<rparr>, ?s1)
        \<and> cache ?s1 = cache validator0
        \<and> cacheMap (cache ?s1) ?a = None"
    by blast
  have a': "signals ?s1 0" by simp
  let ?k = "''http://h/ok.png''"
  let ?r = "\<lparr>isValid = True, statusCode = Some 200, statusText = Some ''OK'',
             error = None, url = ?k\<rparr>"
  let ?t0 = "validator0\<lparr>cache := cache validator0,
                         trace := trace validator0 @ [ValidateUrl ?k, CacheGet ?k]\<rparr>"
  have h: "makeRequest env_example ?k HEAD (browserHeaders env_example ?k) (timeoutMs ?t0) 0 ?t0
    = Some (Inr \<lparr>resp_statusCode = 200, resp_statusText = ''OK'',
                resp_headers = [(''content-type'', ''image/png'')], resp_body = ''''\<rparr>,
           validator0\<lparr>cache := cache validator0,
                     trace := [ValidateUrl ?k, CacheGet ?k,
                               Request ?k HEAD (browserHeaders env_example ?k)]\<rparr>)"
    using example_head_ok by simp
  obtain s' where ty: "validateUrl_try env_example ?k 0 ?t0 = Some (Inr ?r, s')"
    and len: "length (trace s') = 4"
    using validateUrl_try_head [OF h]
    by (simp add: cacheAndReturn_def validator0_def LinkValidator_new_def)
  then have v: "validateUrl env_example ?k 0 validator0 = Some (?r, s')"
    by (simp add: validateUrl_miss [OF example_miss])
  have nc: "\<not> (\<exists>s1. validateUrl_try env_example ?k 0 ?t0 = Some (Inl (Error ''Request cancelled''), s1))"
    using ty by simp
  from cancelled_validation_not_cached [OF example_miss [of "''http://h/ok.png''"], of 0] v nc
  have "cacheMap (cache s') ?k =
          Some \<lparr>isValid = isValid ?r, statusCode = statusCode ?r, statusText = statusText ?r,
                error = error ?r, timestamp = dateNow env_example (length (trace s') - 1)\<rparr>
        \<and> last (trace s') = CacheSet ?k"
    by blast
  with len have b: "cacheMap (cache s') ?k =
            Some \<lparr>isValid = True, statusCode = Some 200, statusText = Some ''OK'',
                  error = None, timestamp = 1003\<rparr>
        \<and> last (trace s') = CacheSet ?k"
    by (simp add: env_example_def)
  from a a' v b show ?thesis by blast
qed

section \<open>Consistency of outcomes\<close>

lemma cache_consistent_new: "cache_consistent (UrlCache_new ttlMinutes)"
  by (simp add: cache_consistent_def UrlCache_new_def)

lemma cache_consistent_set:
  assumes "cache_consistent c" and "consistent r"
  shows "cache_consistent (set_entry c now u r)"
  using assms by (auto simp: cache_consistent_def set_entry_def consistent_def)

lemma cache_consistent_get:
  assumes "cache_consistent c" and "get c now u = (cached, c')"
  shows "cache_consistent c' \<and> (\<forall>entry. cached = Some entry \<longrightarrow> consistent entry)"
  using assms
  by (auto simp: cache_consistent_def get_def split: option.splits if_splits)

lemma cache_consistent_cleanup:
  assumes "cache_consistent c"
  shows "cache_consistent (cleanup c now)" "cache_consistent (clear c)"
  using assms
  by (auto simp: cache_consistent_def cleanup_def clear_def split: option.splits if_splits)

lemma cacheAndReturn_consistent:
  assumes "cache_consistent (cache s)" and "valid \<longrightarrow> code \<noteq> 404 \<and> code \<noteq> 410"
  shows "consistent (fst (cacheAndReturn e u valid code tx s))
       \<and> cache_consistent (cache (snd (cacheAndReturn e u valid code tx s)))"
proof -
  have "consistent \<lparr>isValid = valid, statusCode = Some code, statusText = Some tx, error = None\<rparr>"
    using assms(2) by (auto simp: consistent_def)
  from cache_consistent_set [OF assms(1) this] assms(2) show ?thesis
    by (auto simp: cacheAndReturn_def consistent_def)
qed

lemma handleError_consistent:
  assumes "cache_consistent (cache s)"
  shows "consistent (fst (handleError e u err s))
       \<and> cache_consistent (cache (snd (handleError e u err s)))"
proof -
  have c: "consistent \<lparr>isValid = False, statusCode = None, statusText = None, error = Some m\<rparr>" for m
    by (simp add: consistent_def)
  show ?thesis
    using assms cache_consistent_set [OF assms c]
    by (cases err) (simp_all add: handleError_def Let_def consistent_def)
qed

lemma validateUrl_consistent:
  assumes inv: "cache_consistent (cache s)"
    and v: "validateUrl e u sig s = Some (r, s')"
  shows "consistent r \<and> cache_consistent (cache s')"
proof -
  obtain cached c0 where g: "get (cache s) (dateNow e (Suc (length (trace s)))) u = (cached, c0)"
    by (cases "get (cache s) (dateNow e (Suc (length (trace s)))) u")
  note cg = cache_consistent_get [OF inv g]
  let ?s0 = "s\<lparr>cache := c0, trace := trace s @ [ValidateUrl u, CacheGet u]\<rparr>"
  show ?thesis
  proof (cases cached)
    case (Some entry)
    with v g cg show ?thesis
      by (auto simp: validateUrl_def consistent_def)
  next
    case None
    show ?thesis
    proof (cases "validateUrl_try e u sig ?s0")
      case None
      with v g \<open>cached = None\<close> show ?thesis by (simp add: validateUrl_def)
    next
      case (Some y)
      obtain res s1 where y: "y = (res, s1)" by (cases y)
      from validateUrl_try_cases [OF Some [unfolded y]]
      show ?thesis
      proof
        assume "\<exists>err evs. res = Inl err \<and> cache s1 = cache ?s0 \<and> trace s1 = trace ?s0 @ evs
                  \<and> (\<forall>ev\<in>set evs. \<exists>u' m h. ev = Request u' m h)"
        then obtain err where e: "res = Inl err" "cache s1 = c0" by auto
        from cg e(2) have "cache_consistent (cache s1)" by simp
        from handleError_consistent [OF this, of e u err] v g \<open>cached = None\<close> Some y e(1)
        show ?thesis by (simp add: validateUrl_def)
      next
        assume "\<exists>valid code text s' evs.
            res = Inr (fst (cacheAndReturn e u valid code text s'))
            \<and> s1 = snd (cacheAndReturn e u valid code text s')
            \<and> cache s' = cache ?s0
            \<and> trace s' = trace ?s0 @ evs \<and> (\<forall>ev \<in> set evs. \<exists>u' m h. ev = Request u' m h)
            \<and> (valid \<longrightarrow> code \<noteq> 404 \<and> code \<noteq> 410)"
        then obtain valid code tx sp where
          c: "res = Inr (fst (cacheAndReturn e u valid code tx sp))"
             "s1 = snd (cacheAndReturn e u valid code tx sp)"
             "cache sp = c0" "valid \<longrightarrow> code \<noteq> 404 \<and> code \<noteq> 410"
          by auto
        from cg c(3) have "cache_consistent (cache sp)" by simp
        from cacheAndReturn_consistent [OF this c(4), of e u tx] v g \<open>cached = None\<close> Some y c(1,2)
        show ?thesis by (simp add: validateUrl_def)
      qed
    qed
  qed
qed

lemma validateWindow_consistent:
  assumes "cache_consistent (cache s)" and "validateWindow e us sig s = Some (rs, s')"
  shows "(\<forall>r \<in> set rs. consistent r) \<and> cache_consistent (cache s')"
  using assms
proof (induction us arbitrary: s rs)
  case Nil
  then show ?case by simp
next
  case (Cons u us)
  from Cons.prems(2) obtain r s1 rs1 where
    v: "validateUrl e u sig s = Some (r, s1)" and
    w: "validateWindow e us sig s1 = Some (rs1, s')" and rs: "rs = r # rs1"
    by (auto split: option.splits)
  from validateUrl_consistent [OF Cons.prems(1) v] Cons.IH [OF _ w] rs
  show ?case by simp
qed

lemma validateUrls_loop_consistent:
  assumes "validateUrls_loop e sig U i results s = Some y"
  shows "(\<forall>r \<in> set results. consistent r) \<longrightarrow> cache_consistent (cache s) \<longrightarrow>
         (\<forall>r \<in> set (fst y). consistent r) \<and> cache_consistent (cache (snd y))"
proof (rule validateUrls_loop.raw_induct [OF _ assms], goal_cases)
  case (1 loop e sig U i results s y)
  show ?case
  proof (intro impI)
    assume inv: "\<forall>r \<in> set results. consistent r" "cache_consistent (cache s)"
    show "(\<forall>r \<in> set (fst y). consistent r) \<and> cache_consistent (cache (snd y))"
    proof (cases "i < int (length U) \<and> \<not> signals s sig")
      case False
      with 1(2) inv show ?thesis by (auto split: if_splits)
    next
      case True
      with 1(2) obtain brs s1 where
        w: "validateWindow e (slice U i (i + maxConcurrent s)) sig s = Some (brs, s1)" and
        l: "loop e sig U (i + maxConcurrent s1) (results @ brs) s1 = Some y"
        by (auto split: option.splits)
      from validateWindow_consistent [OF inv(2) w] inv(1) 1(1) [OF l]
      show ?thesis by auto
    qed
  qed
qed

lemma validateUrls_consistent:
  assumes "cache_consistent (cache s)" and "validateUrls e urls s = Some (rs, s')"
  shows "(\<forall>r \<in> set rs. consistent r) \<and> cache_consistent (cache s')"
proof (cases "urls = []")
  case True
  with assms show ?thesis by (simp add: validateUrls_def)
next
  case False
  let ?s1 = "cancel s"
  let ?s2 = "?s1\<lparr>abortController := Some (allocated ?s1),
                 signals := (signals ?s1)(allocated ?s1 := False),
                 allocated := Suc (allocated ?s1)\<rparr>"
  have c: "cache ?s2 = cache s" by (simp add: cancel_def split: option.splits)
  from assms(2) False
  have "validateUrls_loop e (allocated ?s1) (newSet urls) 0 [] ?s2 = Some (rs, s')"
    by (simp add: validateUrls_def Let_def)
  from validateUrls_loop_consistent [OF this] assms(1) c show ?thesis by simp
qed

lemma reachable_consistent: "reachable e s \<Longrightarrow> cache_consistent (cache s)"
proof (induction rule: reachable.induct)
  case (fresh ttlMinutes timeout maxConc)
  then show ?case by (simp add: LinkValidator_new_def cache_consistent_new)
next
  case (batch s urls rs s')
  then show ?case using validateUrls_consistent by blast
next
  case (cancelled s)
  then show ?case by (simp add: cancel_def split: option.splits)
next
  case (swept s now)
  then show ?case by (simp add: cache_consistent_cleanup)
next
  case (cleared s)
  then show ?case by (simp add: cache_consistent_cleanup)
qed

text \<open>
  C9. Every outcome that a batch returns, on a validator constructed on a new cache and
  used through \<open>validateUrls\<close>, \<open>cancel\<close> and the cache's \<open>cleanup\<close> and \<open>clear\<close>, is
  consistent, whether it was computed by probing or read from the cache: an outcome with
  status code 404 or 410 has \<open>isValid = False\<close>.
\<close>

theorem outcomes_consistent:
  assumes "reachable e s" and "validateUrls e urls s = Some (rs, s')"
  shows "\<forall>r \<in> set rs. (statusCode r = Some 404 \<or> statusCode r = Some 410 \<longrightarrow> isValid r = False)"
  using validateUrls_consistent [OF reachable_consistent [OF assms(1)] assms(2)]
  by (auto simp: consistent_def)

theorem outcomes_consistent_witness:
  "\<exists>rs1 s1 rs2 s2.
      reachable env_example validator0
      \<and> validateUrls env_example [''http://h/missing''] validator0 = Some (rs1, s1)
      \<and> reachable env_example s1
      \<and> validateUrls env_example [''http://h/missing'', ''http://h/protected''] s1 = Some (rs2, s2)
      \<and> rs2 = [\<lparr>isValid = False, statusCode = Some 404, statusText = Some ''Not Found'',
                  error = None, url = ''http://h/missing''\<rparr>,
                 \<lparr>isValid = True, statusCode = Some 403, statusText = Some ''Protected'',
                  error = None, url = ''http://h/protected''\<rparr>]
      \<and> (\<forall>r \<in> set rs2. (statusCode r = Some 404 \<or> statusCode r = Some 410 \<longrightarrow> isValid r = False))"
proof -
  have "map_option fst
          (Option.bind (validateUrls env_example [''http://h/missing''] validator0)
             (\<lambda>(rs1, s1). validateUrls env_example [''http://h/missing'', ''http://h/protected''] s1))
        = Some [\<lparr>isValid = False, statusCode = Some 404, statusText = Some ''Not Found'',
                  error = None, url = ''http://h/missing''\<rparr>,
                 \<lparr>isValid = True, statusCode = Some 403, statusText = Some ''Protected'',
                  error = None, url = ''http://h/protected''\<rparr>]"
    by code_simp
  then obtain rs1 s1 s2 where
    v1: "validateUrls env_example [''http://h/missing''] validator0 = Some (rs1, s1)" and
    v2: "validateUrls env_example [''http://h/missing'', ''http://h/protected''] s1
           = Some ([\<lparr>isValid = False, statusCode = Some 404, statusText = Some ''Not Found'',
                  error = None, url = ''http://h/missing''\<rparr>,
                 \<lparr>isValid = True, statusCode = Some 403, statusText = Some ''Protected'',
                  error = None, url = ''http://h/protected''\<rparr>], s2)"
    by (auto simp: bind_eq_Some_conv)
  have r0: "reachable env_example validator0"
    unfolding validator0_def by (rule reachable.fresh)
  have r1: "reachable env_example s1"
    by (rule reachable.batch [OF r0 v1])
  from outcomes_consistent [OF r1 v2] r0 r1 v1 v2 show ?thesis
    by blast
qed

section \<open>The batch coordinator\<close>

lemma addAll_props:
  "distinct acc \<Longrightarrow> distinct (addAll acc xs)"
  "set (addAll acc xs) = set acc \<union> set xs"
  by (induction xs arbitrary: acc) auto

lemma newSet_props: "distinct (newSet xs)" "set (newSet xs) = set xs"
  by (simp_all add: newSet_def addAll_props)

lemma slice_window:
  assumes "0 \<le> i" and "0 < m"
  shows "slice xs i (i + m) = take (nat m) (drop (nat i) xs)"
proof (cases "i \<le> int (length xs)")
  case True
  with assms show ?thesis
    by (auto simp: slice_def Let_def min_def nat_diff_distrib nat_add_distrib)
next
  case False
  with assms show ?thesis
    by (auto simp: slice_def Let_def min_def)
qed

lemma validations_append: "validations (xs @ ys) = validations xs @ validations ys"
  by (induction xs rule: validations.induct) simp_all

lemma validations_requests:
  assumes "\<forall>ev \<in> set evs. \<exists>u m h. ev = Request u m h"
  shows "validations evs = []"
  using assms by (induction evs rule: validations.induct) auto

lemma validateUrl_try_frame:
  assumes "validateUrl_try e u sig s0 = Some (res, s1)"
  shows "maxConcurrent s1 = maxConcurrent s0
       \<and> (\<exists>evs. trace s1 = trace s0 @ evs \<and> validations evs = [])
       \<and> (case res of Inl err \<Rightarrow> True | Inr r \<Rightarrow> url r = u)"
proof (cases "makeRequest e u HEAD (browserHeaders e u) (timeoutMs s0) sig s0")
  case None
  with assms show ?thesis by (simp add: validateUrl_try_def)
next
  case (Some y)
  obtain hr sh where y: "y = (hr, sh)" by (cases y)
  from makeRequest_frame [OF Some] makeRequest_trace [OF Some] y
  obtain evs where fh: "maxConcurrent sh = maxConcurrent s0" "trace sh = trace s0 @ evs"
      "\<forall>ev \<in> set evs. \<exists>u'. ev = Request u' HEAD (browserHeaders e u)"
    by auto
  from fh(3) have vh: "validations evs = []"
    by (intro validations_requests) blast
  show ?thesis
  proof (cases hr)
    case (Inl err)
    with assms Some y fh vh show ?thesis
      by (auto simp: validateUrl_try_def)
  next
    case (Inr h)
    note head = Some [unfolded y Inr]
    note ty = validateUrl_try_head [OF head]
    have car: "maxConcurrent (snd (cacheAndReturn e u valid code tx sh)) = maxConcurrent s0
       \<and> (\<exists>evs. trace (snd (cacheAndReturn e u valid code tx sh)) = trace s0 @ evs \<and> validations evs = [])
       \<and> url (fst (cacheAndReturn e u valid code tx sh)) = u" for valid code tx
      using fh vh by (simp add: cacheAndReturn_def validations_append)
    show ?thesis
    proof (cases "resp_statusCode h = 403 \<or> resp_statusCode h = 405")
      case False
      with assms ty car show ?thesis
        by (auto split: if_splits)
    next
      case True
      then have nr: "\<not> (200 \<le> resp_statusCode h \<and> resp_statusCode h < 400)"
        "\<not> (resp_statusCode h = 404 \<or> resp_statusCode h = 410)" by auto
      show ?thesis
      proof (cases "makeRequest e u GET (browserHeaders e u @ [(''Range'', ''bytes=0-1023'')])
                   (timeoutMs sh) sig sh")
        case None
        with assms ty True nr show ?thesis by simp
      next
        case (Some z)
        obtain gr sg where z: "z = (gr, sg)" by (cases z)
        from makeRequest_frame [OF Some] makeRequest_trace [OF Some] z fh
        obtain evs' where fg: "maxConcurrent sg = maxConcurrent s0" "trace sg = trace s0 @ evs @ evs'"
          "\<forall>ev \<in> set evs'. \<exists>u'. ev = Request u' GET (browserHeaders e u @ [(''Range'', ''bytes=0-1023'')])"
          by auto
        from fg(3) have "validations evs' = []"
          by (intro validations_requests) blast
        with vh have vg: "validations (evs @ evs') = []" by (simp add: validations_append)
        have car': "maxConcurrent (snd (cacheAndReturn e u valid code tx sg)) = maxConcurrent s0
           \<and> (\<exists>evs. trace (snd (cacheAndReturn e u valid code tx sg)) = trace s0 @ evs \<and> validations evs = [])
           \<and> url (fst (cacheAndReturn e u valid code tx sg)) = u" for valid code tx
          using fg vg by (simp add: cacheAndReturn_def validations_append)
        show ?thesis
        proof (cases gr)
          case (Inl err)
          with assms ty True nr Some z fg vg show ?thesis by auto
        next
          case (Inr g)
          with assms ty True nr Some z car' show ?thesis
            by (auto split: if_splits)
        qed
      qed
    qed
  qed
qed

lemma handleError_frame:
  "maxConcurrent (snd (handleError e u err s)) = maxConcurrent s
   \<and> (\<exists>evs. trace (snd (handleError e u err s)) = trace s @ evs \<and> validations evs = [])
   \<and> url (fst (handleError e u err s)) = u"
  by (cases err) (auto simp: handleError_def Let_def)

lemma validateUrl_frame:
  assumes "validateUrl e u sig s = Some (r, s')"
  shows "url r = u \<and> maxConcurrent s' = maxConcurrent s
       \<and> (\<exists>evs. trace s' = trace s @ evs \<and> validations evs = [u])"
proof -
  obtain cached c0 where g: "get (cache s) (dateNow e (Suc (length (trace s)))) u = (cached, c0)"
    by (cases "get (cache s) (dateNow e (Suc (length (trace s)))) u")
  let ?s0 = "s\<lparr>cache := c0, trace := trace s @ [ValidateUrl u, CacheGet u]\<rparr>"
  show ?thesis
  proof (cases cached)
    case (Some entry)
    with assms g show ?thesis
      by (auto simp: validateUrl_def)
  next
    case None
    show ?thesis
    proof (cases "validateUrl_try e u sig ?s0")
      case None
      with assms g \<open>cached = None\<close> show ?thesis by (simp add: validateUrl_def)
    next
      case (Some y)
      obtain res s1 where y: "y = (res, s1)" by (cases y)
      from validateUrl_try_frame [OF Some [unfolded y]] obtain evs where
        f: "maxConcurrent s1 = maxConcurrent s" "trace s1 = trace s @ [ValidateUrl u, CacheGet u] @ evs"
          "validations evs = []" "case res of Inl err \<Rightarrow> True | Inr r \<Rightarrow> url r = u"
        by auto
      show ?thesis
      proof (cases res)
        case (Inl err)
        from handleError_frame [of e u err s1] obtain evs' where
          h: "maxConcurrent (snd (handleError e u err s1)) = maxConcurrent s1"
             "trace (snd (handleError e u err s1)) = trace s1 @ evs'" "validations evs' = []"
             "url (fst (handleError e u err s1)) = u"
          by auto
        from assms g \<open>cached = None\<close> Some y Inl
        have "(r, s') = handleError e u err s1" by (simp add: validateUrl_def)
        then have rs: "r = fst (handleError e u err s1)" "s' = snd (handleError e u err s1)"
          by (metis fst_conv, metis snd_conv)
        have "trace s' = trace s @ ([ValidateUrl u, CacheGet u] @ evs @ evs')
            \<and> validations ([ValidateUrl u, CacheGet u] @ evs @ evs') = [u]"
          using rs h f by (simp add: validations_append)
        then have "\<exists>evs. trace s' = trace s @ evs \<and> validations evs = [u]" by blast
        moreover from rs h f have "url r = u" "maxConcurrent s' = maxConcurrent s" by simp_all
        ultimately show ?thesis by simp
      next
        case (Inr r')
        with assms g \<open>cached = None\<close> Some y have rs: "r = r'" "s' = s1"
          by (simp_all add: validateUrl_def)
        have "trace s' = trace s @ ([ValidateUrl u, CacheGet u] @ evs)
            \<and> validations ([ValidateUrl u, CacheGet u] @ evs) = [u]"
          using rs f by (simp add: validations_append)
        then have "\<exists>evs. trace s' = trace s @ evs \<and> validations evs = [u]" by blast
        moreover from rs f Inr have "url r = u" "maxConcurrent s' = maxConcurrent s" by simp_all
        ultimately show ?thesis by simp
      qed
    qed
  qed
qed

lemma validateWindow_frame:
  assumes "validateWindow e us sig s = Some (rs, s')"
  shows "map url rs = us \<and> maxConcurrent s' = maxConcurrent s
       \<and> (\<exists>evs. trace s' = trace s @ evs \<and> validations evs = us)"
  using assms
proof (induction us arbitrary: s rs)
  case Nil
  then show ?case by simp
next
  case (Cons u us)
  from Cons.prems obtain r s1 rs1 where
    v: "validateUrl e u sig s = Some (r, s1)" and
    w: "validateWindow e us sig s1 = Some (rs1, s')" and rs: "rs = r # rs1"
    by (auto split: option.splits)
  from validateUrl_frame [OF v] obtain evs where
    a: "url r = u" "maxConcurrent s1 = maxConcurrent s" "trace s1 = trace s @ evs" "validations evs = [u]"
    by auto
  from Cons.IH [OF w] obtain evs' where
    b: "map url rs1 = us" "maxConcurrent s' = maxConcurrent s1" "trace s' = trace s1 @ evs'"
       "validations evs' = us"
    by auto
  have "trace s' = trace s @ (evs @ evs') \<and> validations (evs @ evs') = u # us"
    using a b by (simp add: validations_append)
  then have "\<exists>evs. trace s' = trace s @ evs \<and> validations evs = u # us" by blast
  moreover from a b rs have "map url rs = u # us" "maxConcurrent s' = maxConcurrent s" by simp_all
  ultimately show ?case by simp
qed

lemma validateUrls_loop_post:
  assumes "0 < maxConcurrent s" and "0 \<le> i" and "distinct U"
    and "map url results = take (nat i) U"
    and "n0 \<le> length (trace s)" and "validations (drop n0 (trace s)) = map url results"
    and "validateUrls_loop e sig U i results s = Some (rs, s')"
  shows "(\<exists>k. map url rs = take k U)
       \<and> validations (drop n0 (trace s')) = map url rs
       \<and> (\<not> signals s' sig \<longrightarrow> map url rs = U)
       \<and> length results \<le> length rs
       \<and> (i < int (length U) \<and> \<not> signals s sig \<longrightarrow> length results < length rs)"
  using assms
proof (induction "nat (int (length U) - i)" arbitrary: i results s rule: less_induct)
  case less
  note run = less.prems(7)
  show ?case
  proof (cases "i < int (length U)")
    case False
    with run have r: "rs = results" "s' = s"
      by (subst (asm) validateUrls_loop.simps, simp)+
    from False less.prems(2) have "take (nat i) U = U" by simp
    with r less.prems(4) have u: "map url rs = U" by simp
    then have "\<exists>k. map url rs = take k U" by (intro exI [where x="length U"]) simp
    with u r less.prems(6) False show ?thesis by simp
  next
    case True
    show ?thesis
    proof (cases "signals s sig")
      case True
      with \<open>i < int (length U)\<close> run have r: "rs = results" "s' = s"
        by (subst (asm) validateUrls_loop.simps, simp)+
      from r less.prems(4) have "\<exists>k. map url rs = take k U"
        by (intro exI [where x="nat i"]) simp
      with r less.prems(6) True show ?thesis by simp
    next
      case False
      let ?w = "slice U i (i + maxConcurrent s)"
      from run True False obtain brs s1 where
        w: "validateWindow e ?w sig s = Some (brs, s1)" and
        l: "validateUrls_loop e sig U (i + maxConcurrent s1) (results @ brs) s1 = Some (rs, s')"
        by (subst (asm) validateUrls_loop.simps) (auto split: option.splits)
      from validateWindow_frame [OF w] obtain evs where
        f: "map url brs = ?w" "maxConcurrent s1 = maxConcurrent s" "trace s1 = trace s @ evs"
           "validations evs = ?w"
        by auto
      have sl: "?w = take (nat (maxConcurrent s)) (drop (nat i) U)"
        by (rule slice_window [OF less.prems(2) less.prems(1)])
      have ne: "?w \<noteq> []"
        using True less.prems(1,2) by (simp add: sl)
      have i1: "map url (results @ brs) = take (nat (i + maxConcurrent s1)) U"
        using less.prems(1,2,4) f(1,2) sl
        by (simp add: nat_add_distrib take_add)
      have i2: "validations (drop n0 (trace s1)) = map url (results @ brs)"
        using less.prems(5,6) f by (simp add: validations_append)
      have m: "nat (int (length U) - (i + maxConcurrent s1)) < nat (int (length U) - i)"
        using True less.prems(1) f(2) by simp
      have p: "0 < maxConcurrent s1" "0 \<le> i + maxConcurrent s1" "n0 \<le> length (trace s1)"
        using less.prems(1,2,5) f(2,3) by simp_all
      note ih = less.hyps [OF m p(1) p(2) less.prems(3) i1 p(3) i2 l]
      from ne f(1) have "brs \<noteq> []" by auto
      from ih have a: "\<exists>k. map url rs = take k U"
        "validations (drop n0 (trace s')) = map url rs"
        "\<not> signals s' sig \<longrightarrow> map url rs = U"
        "length (results @ brs) \<le> length rs"
        by simp_all
      from a(4) \<open>brs \<noteq> []\<close> have "length results < length rs"
        by (cases brs) simp_all
      with a(1,2,3) show ?thesis by simp
    qed
  qed
qed

lemma validateUrl_total:
  assumes "probes_settle e"
  shows "validateUrl e u sig s \<noteq> None"
proof -
  have mr: "makeRequest e u' m h t sg st \<noteq> None" for u' m h t sg st
    using assms by (simp add: probes_settle_def)
  have ty: "validateUrl_try e u sig st \<noteq> None" for st
  proof (cases "makeRequest e u HEAD (browserHeaders e u) (timeoutMs st) sig st")
    case None
    with mr [of u HEAD "browserHeaders e u" "timeoutMs st" sig st] show ?thesis by simp
  next
    case (Some y)
    obtain hr sh where y: "y = (hr, sh)" by (cases y)
    show ?thesis
    proof (cases hr)
      case (Inl err)
      with Some y show ?thesis by (simp add: validateUrl_try_def)
    next
      case (Inr h)
      note t = validateUrl_try_head [OF Some [unfolded y Inr]]
      show ?thesis
      proof (cases "makeRequest e u GET (browserHeaders e u @ [(''Range'', ''bytes=0-1023'')])
                   (timeoutMs sh) sig sh")
        case None
        with mr [of u GET "browserHeaders e u @ [(''Range'', ''bytes=0-1023'')]" "timeoutMs sh" sig sh]
        show ?thesis by simp
      next
        case (Some z)
        then show ?thesis
          by (cases z; cases "fst z") (auto simp: t)
      qed
    qed
  qed
  obtain cached c0 where g: "get (cache s) (dateNow e (Suc (length (trace s)))) u = (cached, c0)"
    by (cases "get (cache s) (dateNow e (Suc (length (trace s)))) u")
  show ?thesis
  proof (cases cached)
    case (Some entry)
    with g show ?thesis by (simp add: validateUrl_def)
  next
    case None
    from ty [of "s\<lparr>cache := c0, trace := trace s @ [ValidateUrl u, CacheGet u]\<rparr>"]
    show ?thesis
      by (auto simp: validateUrl_miss [OF g [unfolded None]] split: sum.splits)
  qed
qed

lemma validateWindow_total:
  assumes "probes_settle e"
  shows "validateWindow e us sig s \<noteq> None"
proof (induction us arbitrary: s)
  case Nil
  show ?case by simp
next
  case (Cons u us)
  from validateUrl_total [OF assms, of u sig s] obtain r s1 where
    "validateUrl e u sig s = Some (r, s1)" by auto
  with Cons [of s1] show ?case by auto
qed

lemma validateUrls_loop_total:
  assumes "0 < maxConcurrent s" and "probes_settle e"
  shows "validateUrls_loop e sig U i results s \<noteq> None"
  using assms(1)
proof (induction "nat (int (length U) - i)" arbitrary: i results s rule: less_induct)
  case less
  show ?case
  proof (cases "i < int (length U) \<and> \<not> signals s sig")
    case False
    then show ?thesis
      by (subst validateUrls_loop.simps) auto
  next
    case True
    let ?w = "slice U i (i + maxConcurrent s)"
    from validateWindow_total [OF assms(2), of ?w sig s] obtain brs s1 where
      w: "validateWindow e ?w sig s = Some (brs, s1)" by auto
    from validateWindow_frame [OF w] have f: "maxConcurrent s1 = maxConcurrent s" by simp
    have m: "nat (int (length U) - (i + maxConcurrent s1)) < nat (int (length U) - i)"
      using True less.prems f by simp
    have p: "0 < maxConcurrent s1" using less.prems f by simp
    have "validateUrls_loop e sig U (i + maxConcurrent s1) (results @ brs) s1 \<noteq> None"
      by (rule less.hyps [OF m p])
    with True w show ?thesis
      by (subst validateUrls_loop.simps) simp
  qed
qed

text \<open>
  C6. \<open>validateUrls\<close> validates the list \<open>newSet urls\<close>, which holds every URL of the input
  once, in the order of first occurrence. For a validator with \<open>maxConcurrent > 0\<close>,
  whenever the batch returns: the validations started during the batch are exactly those
  of the URLs of the outcomes, one each, and these URLs are an initial part of
  \<open>newSet urls\<close>, so no URL is validated twice; when the signal of the batch is not
  aborted at the end, the URLs of the outcomes are \<open>newSet urls\<close> itself, one outcome
  for each distinct URL of the input; a non-empty input gives at least one outcome, and
  the input \<open>[u, u, u]\<close> gives exactly one, for \<open>u\<close>. The batch does return when every
  probe settles.
\<close>

theorem validateUrls_dedup:
  assumes mc: "0 < maxConcurrent s"
  shows
    "distinct (newSet urls) \<and> set (newSet urls) = set urls
     \<and> (\<forall>rs s'. validateUrls e urls s = Some (rs, s') \<longrightarrow>
          (\<exists>k. map url rs = take k (newSet urls))
          \<and> validations (drop (length (trace s)) (trace s')) = map url rs
          \<and> distinct (map url rs)
          \<and> set (map url rs) \<subseteq> set urls
          \<and> (\<not> signals s' (allocated s) \<longrightarrow> map url rs = newSet urls)
          \<and> (urls \<noteq> [] \<longrightarrow> rs \<noteq> [])
          \<and> (\<forall>u. urls = [u, u, u] \<longrightarrow> map url rs = [u]))
     \<and> (probes_settle e \<longrightarrow> (\<exists>rs s'. validateUrls e urls s = Some (rs, s')))"
proof -
  let ?U = "newSet urls"
  let ?s1 = "cancel s"
  let ?sig = "allocated s"
  let ?s2 = "?s1\<lparr>abortController := Some (allocated ?s1),
                 signals := (signals ?s1)(allocated ?s1 := False),
                 allocated := Suc (allocated ?s1)\<rparr>"
  have al: "allocated ?s1 = allocated s" "maxConcurrent ?s2 = maxConcurrent s"
    "trace ?s2 = trace s"
    by (simp_all add: cancel_def split: option.splits)
  have ns: "\<not> signals ?s2 ?sig"
    by (simp add: al(1))
  have run: "validateUrls e urls s = validateUrls_loop e ?sig ?U 0 [] ?s2" if "urls \<noteq> []"
    using that by (simp add: validateUrls_def Let_def al(1))
  have A: "(\<exists>k. map url rs = take k ?U)
          \<and> validations (drop (length (trace s)) (trace s')) = map url rs
          \<and> distinct (map url rs)
          \<and> set (map url rs) \<subseteq> set urls
          \<and> (\<not> signals s' ?sig \<longrightarrow> map url rs = ?U)
          \<and> (urls \<noteq> [] \<longrightarrow> rs \<noteq> [])
          \<and> (\<forall>u. urls = [u, u, u] \<longrightarrow> map url rs = [u])"
    if v: "validateUrls e urls s = Some (rs, s')" for rs s'
  proof (cases "urls = []")
    case True
    with v have "rs = []" "s' = s" by (simp_all add: validateUrls_def)
    with True show ?thesis by (simp add: newSet_def)
  next
    case False
    from v run [OF False] have l: "validateUrls_loop e ?sig ?U 0 [] ?s2 = Some (rs, s')" by simp
    have post: "(\<exists>k. map url rs = take k ?U)
       \<and> validations (drop (length (trace s)) (trace s')) = map url rs
       \<and> (\<not> signals s' ?sig \<longrightarrow> map url rs = ?U)
       \<and> length ([] :: ValidationResult list) \<le> length rs
       \<and> (0 < int (length ?U) \<and> \<not> signals ?s2 ?sig \<longrightarrow>
            length ([] :: ValidationResult list) < length rs)"
    proof (rule validateUrls_loop_post [OF _ _ _ _ _ _ l])
      show "0 < maxConcurrent ?s2" using mc al(2) by simp
      show "distinct ?U" by (rule newSet_props(1))
      show "length (trace s) \<le> length (trace ?s2)" by (simp add: al(3))
      show "validations (drop (length (trace s)) (trace ?s2)) = map url []" by (simp add: al(3))
    qed simp_all
    from post [THEN conjunct1] obtain k where p1: "map url rs = take k ?U" ..
    from post have
      p2: "validations (drop (length (trace s)) (trace s')) = map url rs" and
      p3: "\<not> signals s' ?sig \<longrightarrow> map url rs = ?U" and
      p4: "0 < int (length ?U) \<and> \<not> signals ?s2 ?sig \<longrightarrow> 0 < length rs"
      by simp_all
    note p = p1 p2 p3 p4
    from False have "?U \<noteq> []"
      using newSet_props(2) [of urls] by auto
    with p(4) ns have ne: "rs \<noteq> []" by simp
    have d: "distinct (map url rs)"
      using p(1) newSet_props(1) [of urls] by simp
    have sub: "set (map url rs) \<subseteq> set urls"
      using p(1) newSet_props(2) [of urls] set_take_subset [of k ?U] by simp
    have three: "map url rs = [u]" if "urls = [u, u, u]" for u
    proof -
      from that have "?U = [u]" by (simp add: newSet_def)
      with p(1) ne show ?thesis by (cases k) simp_all
    qed
    from p(1,2,3) ne d sub three show ?thesis by blast
  qed
  have B: "\<exists>rs s'. validateUrls e urls s = Some (rs, s')" if ps: "probes_settle e"
  proof (cases "urls = []")
    case True
    then show ?thesis by (simp add: validateUrls_def)
  next
    case False
    have "0 < maxConcurrent ?s2" using mc al(2) by simp
    from validateUrls_loop_total [OF this ps, of ?sig ?U 0 "[]"] run [OF False]
    show ?thesis by auto
  qed
  from A B newSet_props [of urls] show ?thesis by blast
qed

lemma env_plain_settles: "probes_settle env_plain"
  unfolding probes_settle_def
proof (intro allI)
  fix u m h t sig s
  show "makeRequest env_plain u m h t sig s \<noteq> None"
    by (subst makeRequest.simps)
       (simp add: env_plain_def respond_def onResponse_def Let_def split: sum.splits)
qed

theorem validateUrls_dedup_witness:
  "0 < maxConcurrent validator0 \<and> probes_settle env_plain
   \<and> (\<exists>rs s'. validateUrls env_plain [''http://h/a.png'', ''http://h/a.png'', ''http://h/a.png'']
                  validator0 = Some (rs, s')
         \<and> map url rs = [''http://h/a.png'']
         \<and> validations (trace s') = [''http://h/a.png''])
   \<and> (\<exists>rs s'. validateUrls env_plain [''http://h/a.png'', ''http://h/b.png'', ''http://h/a.png'']
                  validator0 = Some (rs, s')
         \<and> \<not> signals s' (allocated validator0)
         \<and> map url rs = [''http://h/a.png'', ''http://h/b.png''])"
proof -
  have mc: "0 < maxConcurrent validator0" "trace validator0 = []" "allocated validator0 = 0"
    by (simp_all add: validator0_def LinkValidator_new_def)
  let ?u3 = "[''http://h/a.png'', ''http://h/a.png'', ''http://h/a.png'']"
  let ?aba = "[''http://h/a.png'', ''http://h/b.png'', ''http://h/a.png'']"
  from validateUrls_dedup [OF mc(1), of ?u3 env_plain] env_plain_settles
  obtain rs s' where v: "validateUrls env_plain ?u3 validator0 = Some (rs, s')"
    by blast
  with validateUrls_dedup [OF mc(1), of ?u3 env_plain] mc(2)
  have a: "map url rs = [''http://h/a.png''] \<and> validations (trace s') = [''http://h/a.png'']"
    by simp
  have n: "newSet ?aba = [''http://h/a.png'', ''http://h/b.png'']"
    by (simp add: newSet_def)
  from validateUrls_dedup [OF mc(1), of ?aba env_plain] env_plain_settles
  obtain rs2 s2 where v2: "validateUrls env_plain ?aba validator0 = Some (rs2, s2)"
    by blast
  have "map_option (\<lambda>(rs, s). signals s 0) (validateUrls env_plain ?aba validator0) = Some False"
    by code_simp
  with v2 have na: "\<not> signals s2 (allocated validator0)" by (simp add: mc(3))
  with validateUrls_dedup [OF mc(1), of ?aba env_plain] v2 n
  have b: "map url rs2 = [''http://h/a.png'', ''http://h/b.png'']"
    by simp
  from v a have e1: "\<exists>rs s'. validateUrls env_plain ?u3 validator0 = Some (rs, s')
         \<and> map url rs = [''http://h/a.png'']
         \<and> validations (trace s') = [''http://h/a.png'']"
    by auto
  from v2 na b have e2: "\<exists>rs s'. validateUrls env_plain ?aba validator0 = Some (rs, s')
         \<and> \<not> signals s' (allocated validator0)
         \<and> map url rs = [''http://h/a.png'', ''http://h/b.png'']"
    by auto
  from mc(1) env_plain_settles e1 e2 show ?thesis by (intro conjI)
qed

text \<open>
  C8. \<open>validateUrls\<close> applied to the empty list returns the empty list and leaves the
  validator as it was: the cache is the same and the trace has no new event, so no
  request was issued and the cache was neither read nor written.
\<close>

theorem validateUrls_empty:
  "validateUrls e [] s = Some ([], s)"
  by (simp add: validateUrls_def)

text \<open>
  C10. A call of \<open>validateUrls\<close> with the empty list returns before \<open>cancel\<close> is reached:
  the \<open>abortController\<close> field still holds the controller of the previous batch and the
  \<open>aborted\<close> flag of every signal is what it was. (The first statements of
  \<open>validateUrls\<close> are the same in both versions of the validator.)
\<close>

theorem validateUrls_empty_keeps_previous_batch:
  "\<exists>s'. validateUrls e [] s = Some ([], s')
        \<and> abortController s' = abortController s
        \<and> signals s' = signals s"
  by (simp add: validateUrls_def)

section \<open>The same properties of the validator built on axios\<close>

text \<open>
  The CDN check of the axios version (C2): as \<open>isCdnErrorResponse\<close>, for a body that is a
  string; a body that is not a string gives false.
\<close>

lemma isCdnErrorResponse_axios_iff:
  "isCdnErrorResponse_axios response \<longleftrightarrow>
     (let contentType = (case map_of (ax_headers response) ''content-type'' of
                           None \<Rightarrow> '''' | Some v \<Rightarrow> v)
      in (sublist ''xml'' contentType \<or> sublist ''text/html'' contentType) \<and>
         (\<exists>d. ax_data response = StringData d \<and>
            (sublist ''accessdenied'' (toLowerCase d) \<or>
             sublist ''nosuchkey'' (toLowerCase d) \<or>
             sublist ''not found'' (toLowerCase d) \<or>
             sublist ''does not exist'' (toLowerCase d) \<or>
             sublist ''<error>'' (toLowerCase d) \<or>
             sublist ''the specified key does not exist'' (toLowerCase d))))"
  by (cases "ax_data response")
     (simp_all add: isCdnErrorResponse_axios_def Let_def str_includes_sublist)

text \<open>
  The error handler of the axios version (C7 as amended, C4): a cancellation
  (\<^verbatim>\<open>axios.isCancel\<close>, or an \<^verbatim>\<open>AxiosError\<close> with the code \<open>ERR_CANCELED\<close> that is none of the
  three codes tested before it) gives the cancelled outcome and leaves the validator as
  it is; the codes \<open>ECONNABORTED\<close>, \<open>ENOTFOUND\<close> and \<open>ECONNREFUSED\<close> give the three fixed
  texts; any other \<^verbatim>\<open>AxiosError\<close> gives its message, or \<open>Network error\<close> when the message
  is empty; a value that is not an \<^verbatim>\<open>AxiosError\<close> gives \<open>Unknown error\<close>.
\<close>

lemma handleError_axios_classification:
  "handleError_axios e u err s =
     (if thrown_isCancel err \<or>
         (\<exists>message. thrown_axiosError err = Some (Some ''ERR_CANCELED'', message))
      then (\<lparr>isValid = True, statusCode = None, statusText = None,
             error = Some ''Request cancelled'', url = u\<rparr>, s)
      else (\<lparr>isValid = False, statusCode = None, statusText = None,
             error = Some (case thrown_axiosError err of
                             None \<Rightarrow> ''Unknown error''
                           | Some (code, message) \<Rightarrow>
                               if code = Some ''ECONNABORTED'' then ''Request timeout''
                               else if code = Some ''ENOTFOUND'' then ''Domain not found''
                               else if code = Some ''ECONNREFUSED'' then ''Connection refused''
                               else if message = '''' then ''Network error'' else message),
             url = u\<rparr>,
            snd (handleError_axios e u err s)))"
  by (auto simp: handleError_axios_def Let_def split: option.splits)

text \<open>
  The status classification of the axios version (C1): the same table, on the status of
  the responses of \<^verbatim>\<open>axios.head\<close> and \<^verbatim>\<open>axios.get\<close>.
\<close>

lemma validateUrl_axios_status_classification:
  assumes miss: "get (cache s) (dateNow e (Suc (length (trace s)))) u = (None, c0)"
    and head: "axios_head u (browserHeaders e u) (timeoutMs s) signal
                 (s\<lparr>cache := c0, trace := trace s @ [ValidateUrl u, CacheGet u]\<rparr>)
               = (Inr h, s1)"
  shows
    "(ax_status h \<noteq> 403 \<and> ax_status h \<noteq> 405 \<longrightarrow>
        fst (validateUrl_axios axios_head axios_get e u signal s) =
          \<lparr>isValid = (200 \<le> ax_status h \<and> ax_status h < 400),
           statusCode = Some (ax_status h), statusText = Some (ax_statusText h),
           error = None, url = u\<rparr>)
   \<and> (ax_status h = 403 \<or> ax_status h = 405 \<longrightarrow>
        (\<forall>g s2. axios_get u (browserHeaders e u @ [(''Range'', ''bytes=0-1023'')])
                   (timeoutMs s1) signal s1 = (Inr g, s2) \<longrightarrow>
           (ax_status g = 403 \<and> isCdnErrorResponse_axios g \<longrightarrow>
              fst (validateUrl_axios axios_head axios_get e u signal s) =
                \<lparr>isValid = False, statusCode = Some 403,
                 statusText = Some ''Not Found (CDN)'', error = None, url = u\<rparr>)
           \<and> (ax_status g = 403 \<and> \<not> isCdnErrorResponse_axios g \<longrightarrow>
              fst (validateUrl_axios axios_head axios_get e u signal s) =
                \<lparr>isValid = True, statusCode = Some 403,
                 statusText = Some ''Protected'', error = None, url = u\<rparr>)
           \<and> (ax_status g \<noteq> 403 \<longrightarrow>
              fst (validateUrl_axios axios_head axios_get e u signal s) =
                \<lparr>isValid = (200 \<le> ax_status g \<and> ax_status g < 400),
                 statusCode = Some (ax_status g), statusText = Some (ax_statusText g),
                 error = None, url = u\<rparr>)))"
proof -
  let ?s0 = "s\<lparr>cache := c0, trace := trace s @ [ValidateUrl u, CacheGet u]\<rparr>"
  have head': "axios_head u (browserHeaders e u) (timeoutMs ?s0) signal ?s0 = (Inr h, s1)"
    using head by simp
  have v: "validateUrl_axios axios_head axios_get e u signal s =
      (case validateUrl_try_axios axios_head axios_get e u signal ?s0 of
         (Inl err, s1) \<Rightarrow> handleError_axios e u err s1
       | (Inr r, s1) \<Rightarrow> (r, s1))"
    using miss by (simp add: validateUrl_axios_def)
  have a: "ax_status h \<noteq> 403 \<and> ax_status h \<noteq> 405 \<longrightarrow>
        fst (validateUrl_axios axios_head axios_get e u signal s) =
          \<lparr>isValid = (200 \<le> ax_status h \<and> ax_status h < 400),
           statusCode = Some (ax_status h), statusText = Some (ax_statusText h),
           error = None, url = u\<rparr>"
    using head'
    by (auto simp: v validateUrl_try_axios_def BROKEN_STATUS_CODES_def Let_def cacheAndReturn_def)
  have b: "fst (validateUrl_axios axios_head axios_get e u signal s) =
             (if ax_status g = 403
              then (if isCdnErrorResponse_axios g
                    then \<lparr>isValid = False, statusCode = Some 403,
                          statusText = Some ''Not Found (CDN)'', error = None, url = u\<rparr>
                    else \<lparr>isValid = True, statusCode = Some 403,
                          statusText = Some ''Protected'', error = None, url = u\<rparr>)
              else \<lparr>isValid = (200 \<le> ax_status g \<and> ax_status g < 400),
                    statusCode = Some (ax_status g), statusText = Some (ax_statusText g),
                    error = None, url = u\<rparr>)"
    if hs: "ax_status h = 403 \<or> ax_status h = 405"
      and gt: "axios_get u (browserHeaders e u @ [(''Range'', ''bytes=0-1023'')])
                   (timeoutMs s1) signal s1 = (Inr g, s2)"
    for g s2
    using head' hs gt
    by (auto simp: v validateUrl_try_axios_def BROKEN_STATUS_CODES_def Let_def cacheAndReturn_def)
  from a b show ?thesis by simp
qed

end
